theory Spec2Isabelle
  imports Main
begin

section \<open>Python strings and the regular expressions the extractors build\<close>

text \<open>
  A Python \<open>str\<close> is a sequence of code points; \<open>len\<close>, slicing and the offsets of
  \<open>re\<close> count code points. The functions of this section take \<^typ>\<open>char\<close> as one
  code point below 256 (the Latin-1 range), on which \<open>str.lower\<close> maps character by
  character and keeps the length; every keyword of the dictionaries is ASCII. One code
  point, U+0130, has a lowercase of two code points: trigger extraction on text that
  contains it is modelled apart, in the section on text beyond Latin-1.
\<close>

definition lower_char :: "char \<Rightarrow> char" where
  \<comment> \<open>\<open>str.lower\<close> on one code point below 256: A-Z, and the Latin-1 capitals
      U+00C0..U+00DE other than the multiplication sign U+00D7, move up by 32.\<close>
  "lower_char c =
     (let n = (of_char c :: nat)
      in if (65 \<le> n \<and> n \<le> 90) \<or> (192 \<le> n \<and> n \<le> 214) \<or> (216 \<le> n \<and> n \<le> 222)
         then char_of (n + 32) else c)"

definition py_lower :: "string \<Rightarrow> string" where
  \<comment> \<open>\<open>s.lower()\<close> for a string of code points below 256; \<open>unicode_lower\<close> below is
      \<open>s.lower()\<close> for text that may also hold U+0130\<close>
  "py_lower s = map lower_char s"

definition word_char :: "char \<Rightarrow> bool" where
  \<comment> \<open>the class \<open>\w\<close> of \<open>re\<close> on a \<open>str\<close> pattern: \<open>c.isalnum() or c == '_'\<close>.
      Below 256 the alphanumerics are 0-9, A-Z, a-z, the letters U+00AA, U+00B5, U+00BA,
      U+00C0..U+00FF without U+00D7 and U+00F7, and the numerics U+00B2, U+00B3, U+00B9,
      U+00BC..U+00BE.\<close>
  "word_char c =
     (let n = (of_char c :: nat)
      in (48 \<le> n \<and> n \<le> 57) \<or> (65 \<le> n \<and> n \<le> 90) \<or> n = 95 \<or> (97 \<le> n \<and> n \<le> 122)
         \<or> n = 170 \<or> n = 178 \<or> n = 179 \<or> n = 181 \<or> n = 185 \<or> n = 186
         \<or> (188 \<le> n \<and> n \<le> 190) \<or> (192 \<le> n \<and> n \<le> 214) \<or> (216 \<le> n \<and> n \<le> 246)
         \<or> (248 \<le> n \<and> n \<le> 255))"

fun py_in :: "string \<Rightarrow> string \<Rightarrow> bool" where
  \<comment> \<open>\<open>sub in s\<close> on strings: \<open>sub\<close> occurs in \<open>s\<close> as a contiguous substring\<close>
  "py_in sub [] = (sub = [])"
| "py_in sub (c # cs) = (take (length sub) (c # cs) = sub \<or> py_in sub cs)"

definition slice :: "'a list \<Rightarrow> nat \<Rightarrow> nat \<Rightarrow> 'a list" where
  \<comment> \<open>\<open>s[start:end]\<close> for non-negative bounds\<close>
  "slice s start end = take (end - start) (drop start s)"

definition word_boundary :: "string \<Rightarrow> nat \<Rightarrow> bool" where
  \<comment> \<open>\<open>\b\<close> at position \<open>i\<close>: exactly one of the characters before and after is a word
      character (a missing neighbour counts as a non-word character)\<close>
  "word_boundary s i =
     ((0 < i \<and> i \<le> length s \<and> word_char (s ! (i - 1))) \<noteq> (i < length s \<and> word_char (s ! i)))"

definition literal_at :: "bool \<Rightarrow> string \<Rightarrow> string \<Rightarrow> nat \<Rightarrow> bool" where
  \<comment> \<open>the escaped keyword \<open>re.escape(pattern)\<close> matches at \<open>i\<close>: character by
      character, under \<open>re.IGNORECASE\<close> up to case\<close>
  "literal_at ignorecase pattern s i =
     (i + length pattern \<le> length s \<and>
      (if ignorecase then py_lower (slice s i (i + length pattern)) = py_lower pattern
       else slice s i (i + length pattern) = pattern))"

definition match_at :: "bool \<Rightarrow> string \<Rightarrow> string \<Rightarrow> nat \<Rightarrow> bool" where
  \<comment> \<open>\<open>r'\b' + re.escape(pattern) + r'\b'\<close> matches starting at \<open>i\<close>\<close>
  "match_at ignorecase pattern s i =
     (word_boundary s i \<and> literal_at ignorecase pattern s i \<and>
      word_boundary s (i + length pattern))"

function finditer_from :: "bool \<Rightarrow> string \<Rightarrow> string \<Rightarrow> nat \<Rightarrow> (nat \<times> nat) list" where
  \<comment> \<open>the scan of \<open>re.finditer\<close> from position \<open>i\<close>: the leftmost match is reported and
      the scan resumes at its end (one further after an empty match), so the matches of
      one pattern never overlap\<close>
  "finditer_from ignorecase pattern s i =
     (if length s < i then []
      else if match_at ignorecase pattern s i
        then (i, i + length pattern) #
             finditer_from ignorecase pattern s (i + max 1 (length pattern))
      else finditer_from ignorecase pattern s (i + 1))"
  by pat_completeness auto
termination
  by (relation "measure (\<lambda>(ic, p, s, i). Suc (length s) - i)") auto

definition finditer :: "bool \<Rightarrow> string \<Rightarrow> string \<Rightarrow> (nat \<times> nat) list" where
  "finditer ignorecase pattern s = finditer_from ignorecase pattern s 0"

section \<open>Exceptions and dictionaries\<close>

datatype py_error = KeyError | ValueError

text \<open>
  A \<open>dict\<close> keeps its insertion order, which \<open>max\<close> and \<open>.items()\<close> observe: an
  association list with distinct keys. Reading or updating a missing key raises
  \<open>KeyError\<close>.
\<close>

type_synonym 'v dict = "(string \<times> 'v) list"

fun dict_get :: "'v dict \<Rightarrow> string \<Rightarrow> py_error + 'v" where
  \<comment> \<open>\<open>d[k]\<close>\<close>
  "dict_get [] k = Inl KeyError"
| "dict_get ((k', v) # d) k = (if k' = k then Inr v else dict_get d k)"

fun dict_modify :: "string \<Rightarrow> ('v \<Rightarrow> 'v) \<Rightarrow> 'v dict \<Rightarrow> py_error + 'v dict" where
  \<comment> \<open>\<open>d[k] = f(d[k])\<close>, which covers \<open>d[k] += 1\<close> and \<open>d[k].append(x)\<close>\<close>
  "dict_modify k f [] = Inl KeyError"
| "dict_modify k f ((k', v) # d) =
     (if k' = k then Inr ((k', f v) # d)
      else (case dict_modify k f d of Inl e \<Rightarrow> Inl e | Inr d' \<Rightarrow> Inr ((k', v) # d')))"

definition append_to :: "string \<Rightarrow> 'a \<Rightarrow> 'a list dict \<Rightarrow> py_error + 'a list dict" where
  \<comment> \<open>\<open>d[k].append(x)\<close>\<close>
  "append_to k x d = dict_modify k (\<lambda>l. l @ [x]) d"

fun foldE :: "('s \<Rightarrow> 'a \<Rightarrow> py_error + 's) \<Rightarrow> 's \<Rightarrow> 'a list \<Rightarrow> py_error + 's" where
  \<comment> \<open>a \<open>for\<close> loop over a list whose body updates the state or raises\<close>
  "foldE body s [] = Inr s"
| "foldE body s (x # xs) =
     (case body s x of Inl e \<Rightarrow> Inl e | Inr s' \<Rightarrow> foldE body s' xs)"

fun bindE :: "py_error + 'a \<Rightarrow> ('a \<Rightarrow> py_error + 'b) \<Rightarrow> py_error + 'b" where
  "bindE (Inl e) f = Inl e"
| "bindE (Inr x) f = f x"

fun py_max :: "('a \<Rightarrow> nat) \<Rightarrow> 'a list \<Rightarrow> py_error + 'a" where
  \<comment> \<open>\<open>max(xs, key=key)\<close>: the first item whose key is maximal (a later item replaces
      the best so far only when its key is strictly greater); \<open>ValueError\<close> on an empty
      sequence\<close>
  "py_max key [] = Inl ValueError"
| "py_max key (x # xs) = Inr (foldl (\<lambda>best y. if key best < key y then y else best) x xs)"

definition list_set :: "'a list \<Rightarrow> 'a list" where
  \<comment> \<open>\<open>list(set(xs))\<close>: the distinct elements of \<open>xs\<close>. Python leaves their order
      unspecified; the model fixes one, and nothing proved below depends on it.\<close>
  "list_set xs = remdups xs"

section \<open>The output of the linguistic analyzer\<close>

text \<open>
  Both extractors call the loaded spaCy pipeline \<open>self.nlp(text)\<close> and read the
  document it returns: its tokens, its named entities and its noun chunks. The pipeline
  is not part of the repository, so a document is modelled by what the code reads from it.
\<close>

record token =
  tok_i :: nat          \<comment> \<open>\<open>token.i\<close>, the position of the token in the document\<close>
  tok_text :: string    \<comment> \<open>\<open>token.text\<close>\<close>
  tok_lemma :: string   \<comment> \<open>\<open>token.lemma_\<close>\<close>
  tok_pos :: string     \<comment> \<open>\<open>token.pos_\<close>\<close>
  tok_dep :: string     \<comment> \<open>\<open>token.dep_\<close>\<close>
  tok_head :: nat       \<comment> \<open>\<open>token.head.i\<close>; the root is its own head\<close>

record entity =
  ent_text :: string    \<comment> \<open>\<open>ent.text\<close>\<close>
  ent_label :: string   \<comment> \<open>\<open>ent.label_\<close>\<close>

record chunk =
  chunk_start :: nat    \<comment> \<open>\<open>chunk.start\<close>, first token\<close>
  chunk_end :: nat      \<comment> \<open>\<open>chunk.end\<close>, one past the last token\<close>
  chunk_text :: string  \<comment> \<open>\<open>chunk.text\<close>\<close>

record doc =
  tokens :: "token list"
  ents :: "entity list"
  noun_chunks :: "chunk list"

definition head_text :: "doc \<Rightarrow> token \<Rightarrow> string" where
  \<comment> \<open>\<open>token.head.text\<close>; every token of a parsed document has its head in the
      document, the empty string stands for a head that is not there\<close>
  "head_text d t =
     (case find (\<lambda>h. tok_i h = tok_head t) (tokens d) of
        Some h \<Rightarrow> tok_text h | None \<Rightarrow> [])"

definition children :: "doc \<Rightarrow> token \<Rightarrow> token list" where
  \<comment> \<open>\<open>token.children\<close>: the tokens whose head is this token, in document order\<close>
  "children d t = filter (\<lambda>c. tok_head c = tok_i t \<and> tok_i c \<noteq> tok_i t) (tokens d)"

section \<open>The keyword-centric extractor (Grounding-extraction-spacy+pattern.py)\<close>

definition trigger_patterns :: "string list" where
  "trigger_patterns =
     [''grounded'', ''grounding'', ''ran aground'', ''struck'',
      ''hit'', ''collided'', ''beached'', ''stranded'',
      ''stuck'', ''lodged'', ''foundered'', ''aground'']"

definition event_type_patterns :: "(string \<times> string list) list" where
  "event_type_patterns =
     [(''grounding'', [''grounding'', ''grounded'', ''ran aground'', ''aground'']),
      (''collision'', [''struck'', ''hit'', ''collided'', ''collision'']),
      (''stranding'', [''stranded'', ''beached'', ''stuck'', ''lodged'']),
      (''accident'', [''accident'', ''incident'', ''casualty'', ''mishap''])]"

type_synonym trigger = "string \<times> nat \<times> nat"

definition extract_trigger_words :: "string \<Rightarrow> trigger list" where
  "extract_trigger_words text =
     (let text_lower = py_lower text
      in concat (map (\<lambda>pattern.
           map (\<lambda>(start, end). (pattern, start, end)) (finditer False pattern text_lower))
           trigger_patterns))"

definition argument_patterns :: "(string \<times> string list) list" where
  "argument_patterns =
     [(''vessel'',
        [''ship'', ''vessel'', ''tanker'', ''cargo ship'', ''container ship'',
         ''bulk carrier'', ''cruise ship'', ''ferry'', ''boat'', ''MV'', ''MT'', ''MS'']),
      (''location'',
        [''reef'', ''rock'', ''shoal'', ''sandbar'', ''beach'', ''coast'',
         ''harbor'', ''port'', ''channel'', ''strait'', ''bay'', ''island'',
         ''waters'', ''sea'', ''ocean'']),
      (''cause'',
        [''weather'', ''storm'', ''fog'', ''wind'', ''wave'', ''current'',
         ''navigation error'', ''mechanical failure'', ''engine failure'',
         ''steering failure'', ''human error'', ''poor visibility'']),
      (''time'',
        [''morning'', ''afternoon'', ''evening'', ''night'', ''dawn'', ''dusk'',
         ''Monday'', ''Tuesday'', ''Wednesday'', ''Thursday'', ''Friday'', ''Saturday'',
         ''Sunday'',
         ''January'', ''February'', ''March'', ''April'', ''May'', ''June'',
         ''July'', ''August'', ''September'', ''October'', ''November'', ''December'']),
      (''damage'',
        [''damage'', ''breach'', ''hole'', ''crack'', ''oil spill'', ''pollution'',
         ''leak'', ''flooding'', ''listing'', ''capsized'']),
      (''response'',
        [''rescue'', ''salvage'', ''tow'', ''refloat'', ''evacuate'',
         ''Coast Guard'', ''emergency'', ''response'', ''assist''])]"

definition extract_event_type :: "string \<Rightarrow> trigger list \<Rightarrow> py_error + string" where
  "extract_event_type text triggers =
     (if triggers = [] then Inr ''unknown''
      else
        bindE
          (foldE (\<lambda>type_scores (trigger, _, _).
             foldE (\<lambda>type_scores (event_type, patterns).
               if trigger \<in> set patterns then dict_modify event_type Suc type_scores
               else Inr type_scores) type_scores event_type_patterns)
             (map (\<lambda>(event_type, _). (event_type, 0)) event_type_patterns) triggers)
          (\<lambda>type_scores.
             bindE (py_max (\<lambda>k. case dict_get type_scores k of Inr n \<Rightarrow> n | Inl _ \<Rightarrow> 0)
                      (map fst type_scores))
               (\<lambda>max_type.
                  bindE (dict_get type_scores max_type)
                    (\<lambda>n. Inr (if 0 < n then max_type else ''grounding'')))))"

text \<open>
  \<open>extract_arguments\<close> fills one dictionary in three numbered steps and then removes
  the duplicates; each step is one function here, in the order of the source.
\<close>

definition keyword_arguments :: "string \<Rightarrow> string list dict \<Rightarrow> py_error + string list dict" where
  \<comment> \<open>step 1: every whole-word occurrence of every argument keyword, cut out of the
      original text at the offsets found in the lowered text\<close>
  "keyword_arguments text arguments =
     (let text_lower = py_lower text
      in foldE (\<lambda>arguments (arg_type, patterns).
           foldE (\<lambda>arguments pattern.
             if py_in (py_lower pattern) text_lower
             then foldE (\<lambda>arguments (start, end). append_to arg_type (slice text start end) arguments)
                    arguments (finditer True pattern text_lower)
             else Inr arguments) arguments patterns) arguments argument_patterns)"

definition ner_argument :: "string list dict \<Rightarrow> entity \<Rightarrow> py_error + string list dict" where
  \<comment> \<open>the body of the loop over \<open>doc.ents\<close>\<close>
  "ner_argument arguments ent =
     (if ent_label ent \<in> set [''GPE'', ''LOC'', ''FAC'']
        then append_to ''location'' (ent_text ent) arguments
      else if ent_label ent \<in> set [''DATE'', ''TIME'']
        then append_to ''time'' (ent_text ent) arguments
      else if ent_label ent \<in> set [''ORG'']
        then (if \<exists>keyword \<in> set [''guard'', ''rescue'', ''maritime''].
                   py_in keyword (py_lower (ent_text ent))
              then append_to ''response'' (ent_text ent) arguments
              else append_to ''vessel'' (ent_text ent) arguments)
      else Inr arguments)"

definition ner_arguments :: "doc \<Rightarrow> string list dict \<Rightarrow> py_error + string list dict" where
  \<comment> \<open>step 2\<close>
  "ner_arguments d arguments = foldE ner_argument arguments (ents d)"

definition dependency_arguments :: "doc \<Rightarrow> string list dict \<Rightarrow> py_error + string list dict" where
  \<comment> \<open>step 3: proper-noun subjects of a head whose text contains a trigger keyword\<close>
  "dependency_arguments d arguments =
     foldE (\<lambda>arguments token.
       if tok_pos token = ''PROPN'' \<and> tok_dep token \<in> set [''nsubj'', ''nsubjpass'']
       then (if \<exists>trigger \<in> set trigger_patterns. py_in trigger (py_lower (head_text d token))
             then append_to ''vessel'' (tok_text token) arguments
             else Inr arguments)
       else Inr arguments) arguments (tokens d)"

definition extract_arguments :: "(string \<Rightarrow> doc) option \<Rightarrow> string \<Rightarrow> py_error + string list dict" where
  \<comment> \<open>\<open>nlp\<close> is \<open>self.nlp\<close>: \<open>None\<close> when the model could not be loaded\<close>
  "extract_arguments nlp text =
     (case nlp of
        None \<Rightarrow> Inr []
      | Some analyze \<Rightarrow>
          (let d = analyze text;
               arguments = map (\<lambda>(arg_type, _). (arg_type, [])) argument_patterns
           in bindE (keyword_arguments text arguments) (\<lambda>arguments.
              bindE (ner_arguments d arguments) (\<lambda>arguments.
              bindE (dependency_arguments d arguments) (\<lambda>arguments.
              Inr (map (\<lambda>(arg_type, values). (arg_type, list_set values)) arguments))))))"

record extraction =
  res_text :: string                    \<comment> \<open>key \<open>"text"\<close>\<close>
  res_trigger_words :: "string list"    \<comment> \<open>key \<open>"trigger_words"\<close>\<close>
  res_event_type :: string              \<comment> \<open>key \<open>"event_type"\<close>\<close>
  res_arguments :: "string list dict"   \<comment> \<open>key \<open>"arguments"\<close>\<close>
  res_trigger_positions :: "trigger list"  \<comment> \<open>key \<open>"trigger_positions"\<close>\<close>

definition extract_Grounding :: "(string \<Rightarrow> doc) option \<Rightarrow> string \<Rightarrow> py_error + extraction" where
  \<comment> \<open>\<open>GroundingEventExtractor.extract\<close>\<close>
  "extract_Grounding nlp text =
     (let triggers = extract_trigger_words text
      in bindE (extract_event_type text triggers) (\<lambda>event_type.
         bindE (extract_arguments nlp text) (\<lambda>arguments.
         Inr \<lparr>res_text = text,
              res_trigger_words = map fst triggers,
              res_event_type = event_type,
              res_arguments = arguments,
              res_trigger_positions = triggers\<rparr>)))"

section \<open>Trigger extraction on text beyond Latin-1\<close>

text \<open>
  U+0130 (capital I with dot above) is the one code point whose \<open>str.lower\<close> is longer
  than itself: it lowers to \<open>i\<close> followed by U+0307 (combining dot above). After it the
  lowered text is one code point ahead of the text. The alphabet below adds these two code
  points to Latin-1, and \<open>extract_trigger_words\<close> is translated once more over it:
  the same scan of the lowered text, with the offsets it finds there.
\<close>

datatype code_point =
    Latin1 char     \<comment> \<open>a code point below 256\<close>
  | Capital_I_dot   \<comment> \<open>U+0130, a letter\<close>
  | Combining_dot   \<comment> \<open>U+0307, a combining mark\<close>

fun unicode_lower_point :: "code_point \<Rightarrow> code_point list" where
  "unicode_lower_point (Latin1 c) = [Latin1 (lower_char c)]"
| "unicode_lower_point Capital_I_dot = [Latin1 (CHR ''i''), Combining_dot]"
| "unicode_lower_point Combining_dot = [Combining_dot]"

definition unicode_lower :: "code_point list \<Rightarrow> code_point list" where
  \<comment> \<open>\<open>s.lower()\<close>\<close>
  "unicode_lower s = concat (map unicode_lower_point s)"

fun unicode_word :: "code_point \<Rightarrow> bool" where
  \<comment> \<open>the class \<open>\w\<close>: U+0130 is a letter, U+0307 is not alphanumeric\<close>
  "unicode_word (Latin1 c) = word_char c"
| "unicode_word Capital_I_dot = True"
| "unicode_word Combining_dot = False"

definition latin1 :: "string \<Rightarrow> code_point list" where
  \<comment> \<open>a string of code points below 256 as text\<close>
  "latin1 s = map Latin1 s"

definition unicode_word_boundary :: "code_point list \<Rightarrow> nat \<Rightarrow> bool" where
  \<comment> \<open>\<open>\b\<close> at position \<open>i\<close>\<close>
  "unicode_word_boundary s i =
     ((0 < i \<and> i \<le> length s \<and> unicode_word (s ! (i - 1))) \<noteq> (i < length s \<and> unicode_word (s ! i)))"

definition unicode_match_at :: "string \<Rightarrow> code_point list \<Rightarrow> nat \<Rightarrow> bool" where
  \<comment> \<open>\<open>r'\b' + re.escape(pattern) + r'\b'\<close>, without flags, matches starting at \<open>i\<close>\<close>
  "unicode_match_at pattern s i =
     (unicode_word_boundary s i \<and>
      i + length pattern \<le> length s \<and> slice s i (i + length pattern) = latin1 pattern \<and>
      unicode_word_boundary s (i + length pattern))"

function unicode_finditer_from :: "string \<Rightarrow> code_point list \<Rightarrow> nat \<Rightarrow> (nat \<times> nat) list" where
  \<comment> \<open>the scan of \<open>re.finditer\<close> from position \<open>i\<close>\<close>
  "unicode_finditer_from pattern s i =
     (if length s < i then []
      else if unicode_match_at pattern s i
        then (i, i + length pattern) #
             unicode_finditer_from pattern s (i + max 1 (length pattern))
      else unicode_finditer_from pattern s (i + 1))"
  by pat_completeness auto
termination
  by (relation "measure (\<lambda>(p, s, i). Suc (length s) - i)") auto

definition extract_trigger_words_unicode :: "code_point list \<Rightarrow> trigger list" where
  \<comment> \<open>\<open>extract_trigger_words\<close> on text over the wider alphabet\<close>
  "extract_trigger_words_unicode text =
     (let text_lower = unicode_lower text
      in concat (map (\<lambda>pattern.
           map (\<lambda>(start, end). (pattern, start, end)) (unicode_finditer_from pattern text_lower 0))
           trigger_patterns))"

section \<open>The matcher-centric extractor (Grounding-extraction-spacy.py)\<close>

text \<open>
  \<open>self.matcher\<close> is spaCy's token matcher, loaded with the patterns of
  \<open>_init_patterns\<close>. The extractor reads each match as the name of its pattern group
  (\<open>self.nlp.vocab.strings[match_id]\<close>) and the text of the matched span
  (\<open>doc[start:end].text\<close>); the model takes the matcher as a function from the
  document to these pairs, in the order the matcher reports them.
\<close>

type_synonym matcher = "doc \<Rightarrow> (string \<times> string) list"

definition trigger_verbs :: "string list" where
  "trigger_verbs =
     [''grounded'', ''grounding'', ''struck'', ''hit'', ''collided'',
      ''beached'', ''stranded'', ''stuck'', ''ran'']"

definition get_noun_phrase :: "doc \<Rightarrow> token \<Rightarrow> string" where
  \<comment> \<open>\<open>_get_noun_phrase\<close>: the text of the first noun chunk that contains the token,
      else the token's own text\<close>
  "get_noun_phrase d t =
     (case find (\<lambda>c. chunk_start c \<le> tok_i t \<and> tok_i t < chunk_end c) (noun_chunks d) of
        Some c \<Rightarrow> chunk_text c
      | None \<Rightarrow> tok_text t)"

definition append_phrase :: "string \<Rightarrow> doc \<Rightarrow> token \<Rightarrow> string list dict \<Rightarrow> py_error + string list dict" where
  \<comment> \<open>\<open>phrase = self._get_noun_phrase(child); if phrase: extracted[key].append(phrase)\<close>\<close>
  "append_phrase key d child extracted =
     (let phrase = get_noun_phrase d child
      in if phrase \<noteq> [] then append_to key phrase extracted else Inr extracted)"

definition extract_with_dependency :: "doc \<Rightarrow> py_error + string list dict" where
  "extract_with_dependency d =
     foldE (\<lambda>extracted token.
       bindE
         (if tok_lemma token \<in> set trigger_verbs \<or> py_lower (tok_text token) \<in> set trigger_verbs
          then
            bindE
              (foldE (\<lambda>extracted child.
                 if tok_dep child \<in> set [''nsubj'', ''nsubjpass'']
                 then append_phrase ''vessels'' d child extracted
                 else Inr extracted) extracted (children d token))
              (\<lambda>extracted.
                 foldE (\<lambda>extracted child.
                   if tok_dep child = ''prep''
                   then foldE (\<lambda>extracted grandchild.
                          if tok_dep grandchild = ''pobj''
                          then append_phrase ''locations'' d grandchild extracted
                          else Inr extracted) extracted (children d child)
                   else Inr extracted) extracted (children d token))
          else Inr extracted)
         (\<lambda>extracted.
            if py_lower (tok_text token) \<in> set [''due'', ''caused'', ''because'']
            then foldE (\<lambda>extracted child.
                   if tok_dep child \<in> set [''pobj'', ''agent'']
                   then append_phrase ''causes'' d child extracted
                   else Inr extracted) extracted (children d token)
            else Inr extracted))
       [(''vessels'', []), (''locations'', []), (''causes'', []),
        (''times'', []), (''damages'', []), (''responses'', [])]
       (tokens d)"

definition extract_with_ner :: "doc \<Rightarrow> py_error + string list dict" where
  "extract_with_ner d =
     foldE (\<lambda>extracted ent.
       if ent_label ent = ''ORG'' then append_to ''organizations'' (ent_text ent) extracted
       else if ent_label ent \<in> set [''GPE'', ''LOC'', ''FAC'']
         then append_to ''locations'' (ent_text ent) extracted
       else if ent_label ent \<in> set [''DATE'', ''TIME'']
         then append_to ''times'' (ent_text ent) extracted
       else if ent_label ent = ''PERSON'' then append_to ''persons'' (ent_text ent) extracted
       else Inr extracted)
       [(''organizations'', []), (''locations'', []), (''times'', []), (''persons'', [])]
       (ents d)"

definition extract_with_matcher :: "matcher \<Rightarrow> doc \<Rightarrow> py_error + string list dict" where
  "extract_with_matcher matcher d =
     foldE (\<lambda>extracted (match_label, span_text).
       if match_label = ''TRIGGER'' then append_to ''triggers'' span_text extracted
       else if match_label = ''VESSEL'' then append_to ''vessels'' span_text extracted
       else if match_label = ''LOCATION'' then append_to ''locations'' span_text extracted
       else if match_label = ''CAUSE'' then append_to ''causes'' span_text extracted
       else if match_label = ''DAMAGE'' then append_to ''damages'' span_text extracted
       else if match_label = ''RESPONSE'' then append_to ''responses'' span_text extracted
       else Inr extracted)
       [(''triggers'', []), (''vessels'', []), (''locations'', []),
        (''causes'', []), (''damages'', []), (''responses'', [])]
       (matcher d)"

definition determine_event_type :: "string list \<Rightarrow> string" where
  \<comment> \<open>\<open>_determine_event_type\<close>\<close>
  "determine_event_type triggers =
     (if triggers = [] then ''unknown''
      else
        (let triggers_lower = map py_lower triggers
         in if \<exists>t \<in> set [''grounding'', ''grounded'', ''ran aground'']. t \<in> set triggers_lower
              then ''grounding''
            else if \<exists>t \<in> set [''struck'', ''hit'', ''collided'']. t \<in> set triggers_lower
              then ''collision_grounding''
            else if \<exists>t \<in> set [''stranded'', ''beached'', ''stuck'']. t \<in> set triggers_lower
              then ''stranding''
            else ''marine_accident''))"

definition ship_words :: "string list" where
  \<comment> \<open>the list the organisations are checked against when they are merged into the
      vessels\<close>
  "ship_words = [''ship'', ''vessel'', ''tanker'', ''ferry'', ''MV'', ''MT'', ''MS'']"

definition ship_organizations :: "string list \<Rightarrow> string list" where
  \<comment> \<open>\<open>[org for org in organizations if any(ship_word in org.lower() for ship_word in [...])]\<close>\<close>
  "ship_organizations organizations =
     filter (\<lambda>org. \<exists>ship_word \<in> set ship_words. py_in ship_word (py_lower org)) organizations"

record linguistic_features =
  pos_tags :: "(string \<times> string) list"
  dependencies :: "(string \<times> string \<times> string) list"
  entities :: "(string \<times> string) list"

record spacy_extraction =
  s_text :: string                      \<comment> \<open>key \<open>"text"\<close>\<close>
  s_trigger_words :: "string list"      \<comment> \<open>key \<open>"trigger_words"\<close>\<close>
  s_event_type :: string                \<comment> \<open>key \<open>"event_type"\<close>\<close>
  s_arguments :: "string list dict"     \<comment> \<open>key \<open>"arguments"\<close>\<close>
  s_linguistic_features :: linguistic_features

definition merge_arguments ::
  "string list dict \<Rightarrow> string list dict \<Rightarrow> string list dict \<Rightarrow> py_error + string list dict" where
  \<comment> \<open>the dictionary under \<open>"arguments"\<close>; its entries are evaluated top to bottom\<close>
  "merge_arguments matcher_results ner_results dep_results =
     bindE (dict_get matcher_results ''vessels'') (\<lambda>m_vessels.
     bindE (dict_get dep_results ''vessels'') (\<lambda>d_vessels.
     bindE (dict_get ner_results ''organizations'') (\<lambda>organizations.
     bindE (dict_get matcher_results ''locations'') (\<lambda>m_locations.
     bindE (dict_get ner_results ''locations'') (\<lambda>n_locations.
     bindE (dict_get dep_results ''locations'') (\<lambda>d_locations.
     bindE (dict_get ner_results ''times'') (\<lambda>n_times.
     bindE (dict_get dep_results ''times'') (\<lambda>d_times.
     bindE (dict_get matcher_results ''causes'') (\<lambda>m_causes.
     bindE (dict_get dep_results ''causes'') (\<lambda>d_causes.
     bindE (dict_get matcher_results ''damages'') (\<lambda>m_damages.
     bindE (dict_get dep_results ''damages'') (\<lambda>d_damages.
     bindE (dict_get matcher_results ''responses'') (\<lambda>m_responses.
     bindE (dict_get dep_results ''responses'') (\<lambda>d_responses.
     bindE (dict_get ner_results ''persons'') (\<lambda>persons.
     Inr [(''vessels'', list_set (m_vessels @ d_vessels @ ship_organizations organizations)),
          (''locations'', list_set (m_locations @ n_locations @ d_locations)),
          (''times'', list_set (n_times @ d_times)),
          (''causes'', list_set (m_causes @ d_causes)),
          (''damages'', list_set (m_damages @ d_damages)),
          (''responses'', list_set (m_responses @ d_responses)),
          (''persons'', persons)])))))))))))))))"

definition extract_Spacy ::
  "(string \<Rightarrow> doc) option \<Rightarrow> matcher \<Rightarrow> string \<Rightarrow> py_error + spacy_extraction option" where
  \<comment> \<open>\<open>SpacyGroundingExtractor.extract\<close>; the result \<open>None\<close> is the empty dictionary
      \<open>{}\<close> returned when the model could not be loaded\<close>
  "extract_Spacy nlp matcher text =
     (case nlp of
        None \<Rightarrow> Inr None
      | Some analyze \<Rightarrow>
          (let d = analyze text
           in bindE (extract_with_matcher matcher d) (\<lambda>matcher_results.
              bindE (extract_with_ner d) (\<lambda>ner_results.
              bindE (extract_with_dependency d) (\<lambda>dep_results.
              bindE (dict_get matcher_results ''triggers'') (\<lambda>triggers.
              bindE (merge_arguments matcher_results ner_results dep_results) (\<lambda>arguments.
              Inr (Some
                \<lparr>s_text = (if 200 < length text then take 200 text @ ''...'' else text),
                 s_trigger_words = list_set triggers,
                 s_event_type = determine_event_type triggers,
                 s_arguments = arguments,
                 s_linguistic_features =
                   \<lparr>pos_tags = take 10 (map (\<lambda>token. (tok_text token, tok_pos token)) (tokens d)),
                    dependencies =
                      take 10 (map (\<lambda>token. (tok_text token, tok_dep token, head_text d token))
                                 (filter (\<lambda>token. tok_dep token \<noteq> ''punct'') (tokens d))),
                    entities = map (\<lambda>ent. (ent_text ent, ent_label ent)) (ents d)\<rparr>\<rparr>))))))))"

section \<open>Notions used to state the properties\<close>

text \<open>
  The definitions of this section are not translations of source functions. They say, in
  the words of the specification, what the source functions are compared with, or name
  an intermediate value of a proof.
\<close>

subsection \<open>Occurrences of keywords\<close>




subsection \<open>Counts of trigger keywords per event type\<close>

definition keyword_count :: "string list \<Rightarrow> trigger list \<Rightarrow> nat" where
  \<comment> \<open>how many trigger matches have their keyword string in the given keyword list\<close>
  "keyword_count patterns triggers =
     length (filter (\<lambda>(trigger, _, _). trigger \<in> set patterns) triggers)"

definition type_count :: "string \<Rightarrow> trigger list \<Rightarrow> nat" where
  \<comment> \<open>the count of a declared event type of the keyword-centric variant\<close>
  "type_count event_type triggers =
     (case map_of event_type_patterns event_type of
        Some patterns \<Rightarrow> keyword_count patterns triggers
      | None \<Rightarrow> 0)"

definition first_highest :: "trigger list \<Rightarrow> string" where
  \<comment> \<open>the first declared type among those with the highest count\<close>
  "first_highest triggers =
     (let g = type_count ''grounding'' triggers; c = type_count ''collision'' triggers;
          s = type_count ''stranding'' triggers; a = type_count ''accident'' triggers
      in if c \<le> g \<and> s \<le> g \<and> a \<le> g then ''grounding''
         else if s \<le> c \<and> a \<le> c then ''collision''
         else if a \<le> s then ''stranding''
         else ''accident'')"

definition determine_event_type_keywords :: "(string \<times> string list) list" where
  \<comment> \<open>the event types of \<open>_determine_event_type\<close> with the keyword lists it tests, in
      the order of its \<open>if\<close>/\<open>elif\<close> chain\<close>
  "determine_event_type_keywords =
     [(''grounding'', [''grounding'', ''grounded'', ''ran aground'']),
      (''collision_grounding'', [''struck'', ''hit'', ''collided'']),
      (''stranding'', [''stranded'', ''beached'', ''stuck''])]"

definition spacy_keyword_count :: "string list \<Rightarrow> string list \<Rightarrow> nat" where
  \<comment> \<open>how many triggers of the matcher-centric variant are, lowered, in the keyword list\<close>
  "spacy_keyword_count keywords triggers =
     length (filter (\<lambda>t. py_lower t \<in> set keywords) triggers)"

definition spacy_type_count :: "string \<Rightarrow> string list \<Rightarrow> nat" where
  "spacy_type_count event_type triggers =
     (case map_of determine_event_type_keywords event_type of
        Some keywords \<Rightarrow> spacy_keyword_count keywords triggers
      | None \<Rightarrow> 0)"

subsection \<open>What each extraction step contributes to a category\<close>

fun updated :: "string \<Rightarrow> ('v \<Rightarrow> 'v) \<Rightarrow> 'v dict \<Rightarrow> 'v dict" where
  \<comment> \<open>the dictionary after \<open>d[k] = f(d[k])\<close>, for a key that is present\<close>
  "updated k f [] = []"
| "updated k f ((k', v) # d) = (if k' = k then (k', f v) # d else (k', v) # updated k f d)"

definition keyword_hits :: "string \<Rightarrow> string list \<Rightarrow> string list" where
  \<comment> \<open>the substrings of the text found for a list of argument keywords\<close>
  "keyword_hits text patterns =
     concat (map (\<lambda>pattern.
       if py_in (py_lower pattern) (py_lower text)
       then map (\<lambda>(start, end). slice text start end) (finditer True pattern (py_lower text))
       else []) patterns)"

definition keyword_strings :: "string \<Rightarrow> string \<Rightarrow> string list" where
  \<comment> \<open>the strings the keyword step produces for a category\<close>
  "keyword_strings text arg_type =
     (case map_of argument_patterns arg_type of
        Some patterns \<Rightarrow> keyword_hits text patterns
      | None \<Rightarrow> [])"

definition mentions_responder :: "string \<Rightarrow> bool" where
  \<comment> \<open>the text contains, case-insensitively, one of \<open>guard\<close>, \<open>rescue\<close>,
      \<open>maritime\<close>\<close>
  "mentions_responder s =
     (\<exists>keyword \<in> set [''guard'', ''rescue'', ''maritime'']. py_in keyword (py_lower s))"

definition entity_texts :: "(entity \<Rightarrow> bool) \<Rightarrow> doc \<Rightarrow> string list" where
  \<comment> \<open>the texts of the entities of the document that satisfy \<open>P\<close>, in document order\<close>
  "entity_texts P d = map ent_text (filter P (ents d))"

definition entity_category :: "entity \<Rightarrow> string option" where
  \<comment> \<open>the category an entity is assigned to in the keyword-centric variant, if any\<close>
  "entity_category e =
     (if ent_label e \<in> {''GPE'', ''LOC'', ''FAC''} then Some ''location''
      else if ent_label e \<in> {''DATE'', ''TIME''} then Some ''time''
      else if ent_label e = ''ORG''
        then (if mentions_responder (ent_text e) then Some ''response'' else Some ''vessel'')
      else None)"

definition entity_strings :: "doc \<Rightarrow> string \<Rightarrow> string list" where
  \<comment> \<open>the strings the entity step produces for a category\<close>
  "entity_strings d arg_type = entity_texts (\<lambda>e. entity_category e = Some arg_type) d"

definition subject_vessels :: "doc \<Rightarrow> string list" where
  \<comment> \<open>the proper-noun subjects whose head's text contains a trigger keyword\<close>
  "subject_vessels d =
     map tok_text (filter (\<lambda>token.
       tok_pos token = ''PROPN'' \<and> tok_dep token \<in> set [''nsubj'', ''nsubjpass''] \<and>
       (\<exists>trigger \<in> set trigger_patterns. py_in trigger (py_lower (head_text d token))))
       (tokens d))"

definition dependency_strings :: "doc \<Rightarrow> string \<Rightarrow> string list" where
  \<comment> \<open>the strings the dependency step produces for a category\<close>
  "dependency_strings d arg_type = (if arg_type = ''vessel'' then subject_vessels d else [])"

definition matched :: "string \<Rightarrow> (string \<times> string) list \<Rightarrow> string list" where
  \<comment> \<open>the span texts of the matches of one pattern group\<close>
  "matched label ms = map snd (filter (\<lambda>(match_label, _). match_label = label) ms)"

definition dependency_shape :: "string list dict \<Rightarrow> bool" where
  \<comment> \<open>the keys of the dictionary built by \<open>extract_with_dependency\<close>; it never
      appends to \<open>times\<close>, \<open>damages\<close> or \<open>responses\<close>\<close>
  "dependency_shape extracted =
     (\<exists>v l c. extracted =
        [(''vessels'', v), (''locations'', l), (''causes'', c),
         (''times'', []), (''damages'', []), (''responses'', [])])"

definition dependency_values :: "doc \<Rightarrow> string \<Rightarrow> string list" where
  \<comment> \<open>\<open>dep_results[key]\<close>\<close>
  "dependency_values d key =
     (case extract_with_dependency d of
        Inr extracted \<Rightarrow> (case dict_get extracted key of Inr l \<Rightarrow> l | Inl _ \<Rightarrow> [])
      | Inl _ \<Rightarrow> [])"

definition spacy_arguments :: "matcher \<Rightarrow> doc \<Rightarrow> string list dict" where
  \<comment> \<open>the arguments mapping of the matcher-centric variant, from the results of its
      three extraction functions\<close>
  "spacy_arguments matcher d =
     [(''vessels'', list_set (matched ''VESSEL'' (matcher d) @ dependency_values d ''vessels'' @
         ship_organizations (entity_texts (\<lambda>e. ent_label e = ''ORG'') d))),
      (''locations'', list_set (matched ''LOCATION'' (matcher d) @
         entity_texts (\<lambda>e. ent_label e \<in> {''GPE'', ''LOC'', ''FAC''}) d @
         dependency_values d ''locations'')),
      (''times'', list_set (entity_texts (\<lambda>e. ent_label e \<in> {''DATE'', ''TIME''}) d @
         dependency_values d ''times'')),
      (''causes'', list_set (matched ''CAUSE'' (matcher d) @ dependency_values d ''causes'')),
      (''damages'', list_set (matched ''DAMAGE'' (matcher d) @ dependency_values d ''damages'')),
      (''responses'', list_set (matched ''RESPONSE'' (matcher d) @ dependency_values d ''responses'')),
      (''persons'', entity_texts (\<lambda>e. ent_label e = ''PERSON'') d)]"

definition spacy_argument :: "string \<Rightarrow> spacy_extraction \<Rightarrow> py_error + string list" where
  \<comment> \<open>\<open>result["arguments"][key]\<close>\<close>
  "spacy_argument key r = dict_get (s_arguments r) key"

definition grounding_argument :: "string \<Rightarrow> extraction \<Rightarrow> py_error + string list" where
  \<comment> \<open>\<open>result["arguments"][key]\<close> in the keyword-centric variant\<close>
  "grounding_argument key r = dict_get (res_arguments r) key"

definition no_arguments :: "string list dict" where
  \<comment> \<open>the arguments dictionary \<open>extract_arguments\<close> starts from\<close>
  "no_arguments =
     [(''vessel'', []), (''location'', []), (''cause'', []),
      (''time'', []), (''damage'', []), (''response'', [])]"

subsection \<open>Analyzers and matchers for the examples\<close>

definition empty_doc :: doc where
  "empty_doc = \<lparr>tokens = [], ents = [], noun_chunks = []\<rparr>"

definition blank_nlp :: "string \<Rightarrow> doc" where
  \<comment> \<open>an analyzer that finds nothing\<close>
  "blank_nlp text = empty_doc"

definition entities_nlp :: "entity list \<Rightarrow> string \<Rightarrow> doc" where
  \<comment> \<open>an analyzer that finds the given entities\<close>
  "entities_nlp es text = \<lparr>tokens = [], ents = es, noun_chunks = []\<rparr>"

definition no_matches :: matcher where
  \<comment> \<open>a matcher that reports no match\<close>
  "no_matches d = []"

section \<open>Properties of the string functions and of the scan\<close>


lemma lower_char_idem: "lower_char (lower_char c) = lower_char c"
proof -
  have "(of_char c :: nat) < 256" by simp
  then show ?thesis
    unfolding lower_char_def Let_def
    by (auto simp: of_char_of)
qed

lemma length_py_lower [simp]: "length (py_lower s) = length s"
  by (simp add: py_lower_def)

















section \<open>Trigger extraction\<close>

text \<open>
  On Latin-1 text the wider translation is \<open>extract_trigger_words\<close>, whose matches
  are exactly the whole-word occurrences of the trigger keywords
  (\<open>mem_extract_trigger_words\<close>).
\<close>

lemma unicode_lower_latin1: "unicode_lower (latin1 s) = latin1 (py_lower s)"
  by (induction s) (simp_all add: unicode_lower_def latin1_def py_lower_def)

lemma unicode_word_boundary_latin1:
  "unicode_word_boundary (latin1 s) i = word_boundary s i"
  by (auto simp: unicode_word_boundary_def word_boundary_def latin1_def)

lemma unicode_match_at_latin1:
  "unicode_match_at p (latin1 s) i = match_at False p s i"
proof -
  have "slice (latin1 s) i j = latin1 (slice s i j)" for j
    by (simp add: slice_def latin1_def take_map drop_map)
  moreover have "latin1 a = latin1 b \<longleftrightarrow> a = b" for a b
    by (simp add: latin1_def inj_map_eq_map inj_def)
  ultimately show ?thesis
    by (simp add: unicode_match_at_def match_at_def literal_at_def unicode_word_boundary_latin1)
       (simp add: latin1_def)
qed

lemma unicode_finditer_from_latin1:
  "\<not> ic \<Longrightarrow> unicode_finditer_from p (latin1 s) i = finditer_from ic p s i"
proof (induction ic p s i rule: finditer_from.induct)
  case (1 ic p s i)
  from "1.prems" have ic: "ic = False" by simp
  have len: "length (latin1 s) = length s"
    by (simp add: latin1_def)
  show ?case
  proof (cases "length s < i")
    case True
    then show ?thesis
      by (simp add: len del: finditer_from.simps unicode_finditer_from.simps
          add: finditer_from.simps [of ic p s i] unicode_finditer_from.simps [of p "latin1 s" i])
  next
    case nl: False
    show ?thesis
    proof (cases "match_at ic p s i")
      case True
      with "1.IH"(1) [OF nl True "1.prems"] nl show ?thesis
        by (simp add: len ic unicode_match_at_latin1
            del: finditer_from.simps unicode_finditer_from.simps
            add: finditer_from.simps [of False p s i] unicode_finditer_from.simps [of p "latin1 s" i])
    next
      case False
      with "1.IH"(2) [OF nl False "1.prems"] nl show ?thesis
        by (simp add: len ic unicode_match_at_latin1
            del: finditer_from.simps unicode_finditer_from.simps
            add: finditer_from.simps [of False p s i] unicode_finditer_from.simps [of p "latin1 s" i])
    qed
  qed
qed

lemma extract_trigger_words_unicode_latin1:
  "extract_trigger_words_unicode (latin1 text) = extract_trigger_words text"
  by (simp add: extract_trigger_words_unicode_def extract_trigger_words_def Let_def
      unicode_lower_latin1 unicode_finditer_from_latin1 [of False] finditer_def
      del: finditer_from.simps unicode_finditer_from.simps)

text \<open>
  Claim C3 fails on the code for text that contains U+0130. The text of the four code
  points U+0130, \<open>h\<close>, \<open>i\<close>, \<open>t\<close> is one word, since U+0130 is a letter; its lowered
  copy has five code points, the second a combining mark, and the scan of the lowered copy
  finds \<open>hit\<close> there as a whole word. The reported match \<open>(hit, 2, 5)\<close> is a keyword
  inside a longer word of the text, and its end offset lies beyond the end of the text.
\<close>

theorem trigger_inside_word_after_dotted_I:
  "extract_trigger_words_unicode
     [Capital_I_dot, Latin1 (CHR ''h''), Latin1 (CHR ''i''), Latin1 (CHR ''t'')] =
     [(''hit'', 2, 5)] \<and>
   length [Capital_I_dot, Latin1 (CHR ''h''), Latin1 (CHR ''i''), Latin1 (CHR ''t'')] = 4 \<and>
   unicode_word Capital_I_dot"
  by code_simp



section \<open>Dictionary updates in loops\<close>

lemma dict_modify_updated:
  "k \<in> fst ` set d \<Longrightarrow> dict_modify k f d = Inr (updated k f d)"
  by (induction d) force+

lemma keys_updated [simp]: "map fst (updated k f d) = map fst d"
  by (induction d) auto

lemma updated_updated: "updated k g (updated k f d) = updated k (\<lambda>v. g (f v)) d"
  by (induction d) auto

lemma updated_ident: "updated k (\<lambda>v. v) d = d"
  by (induction d) auto

lemma in_keys_updated: "k' \<in> fst ` set (updated k f d) \<longleftrightarrow> k' \<in> fst ` set d"
  by (metis keys_updated set_map)

lemma foldE_append_to:
  "k \<in> fst ` set d \<Longrightarrow>
   foldE (\<lambda>a x. append_to k (f x) a) d xs = Inr (updated k (\<lambda>l. l @ map f xs) d)"
proof (induction xs arbitrary: d)
  case Nil
  then show ?case by (simp add: updated_ident)
next
  case (Cons x xs)
  from Cons.prems have "k \<in> fst ` set (updated k (\<lambda>l. l @ [f x]) d)"
    by (simp only: in_keys_updated)
  from Cons.IH [OF this] Cons.prems show ?case
    by (simp add: append_to_def dict_modify_updated updated_updated)
qed

lemma foldE_cond_append_to:
  "k \<in> fst ` set d \<Longrightarrow>
   foldE (\<lambda>a x. if P x then append_to k (f x) a else Inr a) d xs =
     Inr (updated k (\<lambda>l. l @ map f (filter P xs)) d)"
proof (induction xs arbitrary: d)
  case Nil
  then show ?case by (simp add: updated_ident)
next
  case (Cons x xs)
  from Cons.prems have "k \<in> fst ` set (updated k (\<lambda>l. l @ [f x]) d)"
    by (simp only: in_keys_updated)
  from Cons.IH [OF this] Cons.IH [OF Cons.prems] Cons.prems show ?case
    by (simp add: append_to_def dict_modify_updated updated_updated)
qed

section \<open>The scores of the keyword-centric resolver\<close>

lemma score_one_trigger:
  "foldE (\<lambda>type_scores (event_type, patterns).
            if trigger \<in> set patterns then dict_modify event_type Suc type_scores
            else Inr type_scores)
     [(''grounding'', a), (''collision'', b), (''stranding'', c), (''accident'', d)]
     [(''grounding'', G), (''collision'', C), (''stranding'', S), (''accident'', A)] =
   Inr [(''grounding'', a + (if trigger \<in> set G then 1 else 0)),
        (''collision'', b + (if trigger \<in> set C then 1 else 0)),
        (''stranding'', c + (if trigger \<in> set S then 1 else 0)),
        (''accident'', d + (if trigger \<in> set A then 1 else 0))]"
  by simp

lemma score_triggers:
  "foldE (\<lambda>type_scores (trigger, _, _).
       foldE (\<lambda>type_scores (event_type, patterns).
            if trigger \<in> set patterns then dict_modify event_type Suc type_scores
            else Inr type_scores) type_scores
         [(''grounding'', G), (''collision'', C), (''stranding'', S), (''accident'', A)])
     [(''grounding'', a), (''collision'', b), (''stranding'', c), (''accident'', d)]
     triggers =
   Inr [(''grounding'', a + keyword_count G triggers),
        (''collision'', b + keyword_count C triggers),
        (''stranding'', c + keyword_count S triggers),
        (''accident'', d + keyword_count A triggers)]"
  (is "foldE ?F _ _ = _")
proof (induction triggers arbitrary: a b c d)
  case Nil
  then show ?case by (simp add: keyword_count_def)
next
  case (Cons t ts)
  obtain trigger s e where t: "t = (trigger, s, e)"
    using prod_cases3 by blast
  define one where "one P = (if trigger \<in> set P then 1 else 0 :: nat)" for P
  have kc: "keyword_count P (t # ts) = one P + keyword_count P ts" for P
    by (simp add: keyword_count_def t one_def)
  have "?F [(''grounding'', a), (''collision'', b), (''stranding'', c), (''accident'', d)] t =
        Inr [(''grounding'', a + one G), (''collision'', b + one C),
             (''stranding'', c + one S), (''accident'', d + one A)]"
    unfolding t prod.case one_def by (rule score_one_trigger)
  then have "foldE ?F [(''grounding'', a), (''collision'', b), (''stranding'', c), (''accident'', d)] (t # ts) =
     foldE ?F [(''grounding'', a + one G), (''collision'', b + one C),
             (''stranding'', c + one S), (''accident'', d + one A)] ts"
    by (simp only: foldE.simps sum.case)
  also have "\<dots> = Inr [(''grounding'', a + one G + keyword_count G ts),
        (''collision'', b + one C + keyword_count C ts),
        (''stranding'', c + one S + keyword_count S ts),
        (''accident'', d + one A + keyword_count A ts)]"
    by (rule Cons.IH)
  finally show ?case
    by (simp only: kc add.assoc)
qed

lemma type_count_simps:
  "type_count ''grounding'' triggers =
     keyword_count [''grounding'', ''grounded'', ''ran aground'', ''aground''] triggers"
  "type_count ''collision'' triggers =
     keyword_count [''struck'', ''hit'', ''collided'', ''collision''] triggers"
  "type_count ''stranding'' triggers =
     keyword_count [''stranded'', ''beached'', ''stuck'', ''lodged''] triggers"
  "type_count ''accident'' triggers =
     keyword_count [''accident'', ''incident'', ''casualty'', ''mishap''] triggers"
  by (simp_all add: type_count_def event_type_patterns_def)

lemma extract_event_type_scores:
  "foldE (\<lambda>type_scores (trigger, _, _).
       foldE (\<lambda>type_scores (event_type, patterns).
            if trigger \<in> set patterns then dict_modify event_type Suc type_scores
            else Inr type_scores) type_scores event_type_patterns)
     (map (\<lambda>(event_type, _). (event_type, 0)) event_type_patterns) triggers =
   Inr [(''grounding'', type_count ''grounding'' triggers),
        (''collision'', type_count ''collision'' triggers),
        (''stranding'', type_count ''stranding'' triggers),
        (''accident'', type_count ''accident'' triggers)]"
proof -
  have init: "map (\<lambda>(event_type, _). (event_type, 0::nat)) event_type_patterns =
      [(''grounding'', 0), (''collision'', 0), (''stranding'', 0), (''accident'', 0)]"
    by (simp add: event_type_patterns_def)
  show ?thesis
    unfolding init type_count_simps
    unfolding event_type_patterns_def score_triggers
    by simp
qed

lemma py_max_four:
  "py_max key [w, x, y, z] =
     Inr (if key x \<le> key w \<and> key y \<le> key w \<and> key z \<le> key w then w
          else if key y \<le> key x \<and> key z \<le> key x then x
          else if key z \<le> key y then y
          else z)"
  by (simp add: not_le)

lemma first_highest_cases:
  "first_highest triggers \<in> {''grounding'', ''collision'', ''stranding'', ''accident''}"
  by (simp add: first_highest_def Let_def)

lemma first_highest_zero:
  "type_count (first_highest triggers) triggers = 0 \<Longrightarrow> first_highest triggers = ''grounding''"
  by (simp add: first_highest_def Let_def split: if_splits)

lemma extract_event_type_first_highest:
  assumes "triggers \<noteq> []"
  shows "extract_event_type text triggers = Inr (first_highest triggers)"
proof -
  define type_scores where "type_scores =
       [(''grounding'', type_count ''grounding'' triggers),
        (''collision'', type_count ''collision'' triggers),
        (''stranding'', type_count ''stranding'' triggers),
        (''accident'', type_count ''accident'' triggers)]"
  define key where "key k = (case dict_get type_scores k of Inr n \<Rightarrow> n | Inl _ \<Rightarrow> 0)" for k
  have get: "dict_get type_scores ''grounding'' = Inr (type_count ''grounding'' triggers)"
    "dict_get type_scores ''collision'' = Inr (type_count ''collision'' triggers)"
    "dict_get type_scores ''stranding'' = Inr (type_count ''stranding'' triggers)"
    "dict_get type_scores ''accident'' = Inr (type_count ''accident'' triggers)"
    by (simp_all add: type_scores_def)
  then have key: "key ''grounding'' = type_count ''grounding'' triggers"
    "key ''collision'' = type_count ''collision'' triggers"
    "key ''stranding'' = type_count ''stranding'' triggers"
    "key ''accident'' = type_count ''accident'' triggers"
    by (simp_all add: key_def)
  have keys: "map fst type_scores = [''grounding'', ''collision'', ''stranding'', ''accident'']"
    by (simp add: type_scores_def)
  have mx: "py_max key (map fst type_scores) = Inr (first_highest triggers)"
    unfolding keys py_max_four key first_highest_def Let_def ..
  have dg: "dict_get type_scores (first_highest triggers) =
      Inr (type_count (first_highest triggers) triggers)"
    using first_highest_cases [of triggers] get by auto
  have "extract_event_type text triggers =
      bindE (Inr type_scores) (\<lambda>type_scores.
        bindE (py_max (\<lambda>k. case dict_get type_scores k of Inr n \<Rightarrow> n | Inl _ \<Rightarrow> 0)
                 (map fst type_scores))
          (\<lambda>max_type. bindE (dict_get type_scores max_type)
             (\<lambda>n. Inr (if 0 < n then max_type else ''grounding''))))"
    using assms
    unfolding extract_event_type_def extract_event_type_scores type_scores_def by simp
  also have "\<dots> = bindE (py_max key (map fst type_scores))
          (\<lambda>max_type. bindE (dict_get type_scores max_type)
             (\<lambda>n. Inr (if 0 < n then max_type else ''grounding'')))"
    unfolding bindE.simps key_def ..
  also have "\<dots> = Inr (if 0 < type_count (first_highest triggers) triggers
                        then first_highest triggers else ''grounding'')"
    unfolding mx bindE.simps dg ..
  also have "\<dots> = Inr (first_highest triggers)"
    using first_highest_zero [of triggers] by auto
  finally show ?thesis .
qed

lemma declared_event_types:
  "map fst event_type_patterns = [''grounding'', ''collision'', ''stranding'', ''accident'']"
  by (simp add: event_type_patterns_def)

lemma first_highest_max:
  "U \<in> {''grounding'', ''collision'', ''stranding'', ''accident''} \<Longrightarrow>
     type_count U triggers \<le> type_count (first_highest triggers) triggers"
  by (auto simp: first_highest_def Let_def)

lemma first_highest_first:
  "U \<in> set (takeWhile (\<lambda>U. U \<noteq> first_highest triggers)
              [''grounding'', ''collision'', ''stranding'', ''accident'']) \<Longrightarrow>
     type_count U triggers < type_count (first_highest triggers) triggers"
  by (auto simp: first_highest_def Let_def split: if_splits)

lemma spacy_keyword_count_pos:
  "0 < spacy_keyword_count keywords triggers \<longleftrightarrow>
     (\<exists>t \<in> set keywords. t \<in> set (map py_lower triggers))"
  by (auto simp: spacy_keyword_count_def filter_empty_conv)

lemma determine_event_type_first_present:
  "triggers \<noteq> [] \<Longrightarrow>
   determine_event_type triggers =
     (case find (\<lambda>(T, keywords). 0 < spacy_keyword_count keywords triggers)
             determine_event_type_keywords of
        Some (T, _) \<Rightarrow> T
      | None \<Rightarrow> ''marine_accident'')"
  unfolding determine_event_type_def determine_event_type_keywords_def Let_def
    find.simps prod.case spacy_keyword_count_pos
  by simp

section \<open>Event type resolution\<close>

text \<open>
  Claim C1, as stated, fails for the matcher-centric resolver. For the triggers
  \<open>struck\<close>, \<open>hit\<close>, \<open>grounded\<close> the type \<open>collision_grounding\<close> has
  two keywords among them, strictly more than \<open>grounding\<close> (one) and
  \<open>stranding\<close> (none), and \<open>_determine_event_type\<close> still returns
  \<open>grounding\<close>.
\<close>

theorem determine_event_type_ignores_counts:
  "spacy_type_count ''grounding'' [''struck'', ''hit'', ''grounded'']
     < spacy_type_count ''collision_grounding'' [''struck'', ''hit'', ''grounded''] \<and>
   spacy_type_count ''stranding'' [''struck'', ''hit'', ''grounded'']
     < spacy_type_count ''collision_grounding'' [''struck'', ''hit'', ''grounded''] \<and>
   determine_event_type [''struck'', ''hit'', ''grounded''] = ''grounding''"
  by code_simp

text \<open>
  Claim C1, amended. For a non-empty trigger list the keyword-centric resolver
  \<open>extract_event_type\<close> returns a declared type whose count of trigger keywords is
  highest, and every type declared before it has a strictly smaller count (the first
  declared type wins a tie); so a type whose count is strictly higher than every other
  type's is the one returned. The matcher-centric resolver \<open>_determine_event_type\<close>
  compares no counts: it returns the first of \<open>grounding\<close>,
  \<open>collision_grounding\<close>, \<open>stranding\<close> that has at least one of its keywords
  among the lowered triggers, and \<open>marine_accident\<close> when none has.
\<close>

theorem event_type_resolution:
  "(triggers \<noteq> [] \<longrightarrow>
      (\<exists>T. extract_event_type text triggers = Inr T \<and>
           T \<in> set (map fst event_type_patterns) \<and>
           (\<forall>U \<in> set (map fst event_type_patterns).
               type_count U triggers \<le> type_count T triggers) \<and>
           (\<forall>U \<in> set (takeWhile (\<lambda>U. U \<noteq> T) (map fst event_type_patterns)).
               type_count U triggers < type_count T triggers) \<and>
           (\<forall>W \<in> set (map fst event_type_patterns).
               (\<forall>U \<in> set (map fst event_type_patterns).
                   U \<noteq> W \<longrightarrow> type_count U triggers < type_count W triggers)
               \<longrightarrow> T = W))) \<and>
   (span_texts \<noteq> [] \<longrightarrow>
      determine_event_type span_texts =
        (case find (\<lambda>(T, keywords). 0 < spacy_keyword_count keywords span_texts)
                determine_event_type_keywords of
           Some (T, _) \<Rightarrow> T
         | None \<Rightarrow> ''marine_accident''))"
proof (intro conjI impI)
  assume ne: "triggers \<noteq> []"
  let ?T = "first_highest triggers"
  let ?types = "map fst event_type_patterns"
  have mem: "?T \<in> set ?types"
    using first_highest_cases [of triggers] by (simp add: declared_event_types)
  have mx: "type_count U triggers \<le> type_count ?T triggers" if "U \<in> set ?types" for U
    using that first_highest_max [of U triggers] by (simp add: declared_event_types)
  have fst: "type_count U triggers < type_count ?T triggers"
    if "U \<in> set (takeWhile (\<lambda>U. U \<noteq> ?T) ?types)" for U
    using that first_highest_first [of U triggers] by (simp only: declared_event_types)
  have uniq: "?T = W"
    if W: "W \<in> set ?types"
      and gt: "\<forall>U \<in> set ?types. U \<noteq> W \<longrightarrow> type_count U triggers < type_count W triggers"
    for W
  proof (rule ccontr)
    assume "?T \<noteq> W"
    with gt mem have "type_count ?T triggers < type_count W triggers" by blast
    moreover from mx [OF W] have "type_count W triggers \<le> type_count ?T triggers" .
    ultimately show False by simp
  qed
  from extract_event_type_first_highest [OF ne, of "text"] mem mx fst uniq
  show "\<exists>T. extract_event_type text triggers = Inr T \<and>
           T \<in> set ?types \<and>
           (\<forall>U \<in> set ?types. type_count U triggers \<le> type_count T triggers) \<and>
           (\<forall>U \<in> set (takeWhile (\<lambda>U. U \<noteq> T) ?types).
               type_count U triggers < type_count T triggers) \<and>
           (\<forall>W \<in> set ?types.
               (\<forall>U \<in> set ?types. U \<noteq> W \<longrightarrow> type_count U triggers < type_count W triggers)
               \<longrightarrow> T = W)"
    by blast
next
  assume "span_texts \<noteq> []"
  then show "determine_event_type span_texts =
        (case find (\<lambda>(T, keywords). 0 < spacy_keyword_count keywords span_texts)
                determine_event_type_keywords of
           Some (T, _) \<Rightarrow> T
         | None \<Rightarrow> ''marine_accident'')"
    by (rule determine_event_type_first_present)
qed

text \<open>
  Two collision keywords against one grounding keyword: the keyword-centric resolver
  answers \<open>collision\<close>, the matcher-centric one \<open>grounding\<close>.
\<close>

theorem event_type_resolution_witness:
  "extract_event_type ''hit, struck, aground'' [(''hit'', 0, 3), (''struck'', 5, 11), (''aground'', 13, 20)]
      = Inr ''collision'' \<and>
   determine_event_type [''struck'', ''hit'', ''grounded''] = ''grounding''"
proof -
  let ?tr = "[(''hit'', 0, 3), (''struck'', 5, 11), (''aground'', 13, 20)] :: trigger list"
  let ?sp = "[''struck'', ''hit'', ''grounded'']"
  note R = event_type_resolution [of ?tr "''hit, struck, aground''" ?sp]
  have ne: "?tr \<noteq> []" "?sp \<noteq> []" by simp_all
  have W: "''collision'' \<in> set (map fst event_type_patterns)"
    by (simp add: event_type_patterns_def)
  have gt: "\<forall>U \<in> set (map fst event_type_patterns).
       U \<noteq> ''collision'' \<longrightarrow> type_count U ?tr < type_count ''collision'' ?tr"
    by code_simp
  from R [THEN conjunct1, rule_format, OF ne(1)] obtain T where
    T: "extract_event_type ''hit, struck, aground'' ?tr = Inr T"
    and "\<forall>W \<in> set (map fst event_type_patterns).
               (\<forall>U \<in> set (map fst event_type_patterns).
                   U \<noteq> W \<longrightarrow> type_count U ?tr < type_count W ?tr)
               \<longrightarrow> T = W"
    by blast
  with W gt have "T = ''collision''" by blast
  moreover from R [THEN conjunct2, rule_format, OF ne(2)]
  have "determine_event_type ?sp = ''grounding''"
    by (simp add: determine_event_type_keywords_def spacy_keyword_count_def py_lower_def lower_char_def)
  ultimately show ?thesis using T by simp
qed

section \<open>What the extraction functions return\<close>

lemma keyword_pattern_loop:
  "k \<in> fst ` set d \<Longrightarrow>
   foldE (\<lambda>arguments pattern.
       if py_in (py_lower pattern) text_lower
       then foldE (\<lambda>arguments (start, end). append_to k (slice text start end) arguments)
              arguments (finditer True pattern text_lower)
       else Inr arguments) d patterns =
     Inr (updated k (\<lambda>l. l @ concat (map (\<lambda>pattern.
            if py_in (py_lower pattern) text_lower
            then map (\<lambda>(start, end). slice text start end) (finditer True pattern text_lower)
            else []) patterns)) d)"
proof (induction patterns arbitrary: d)
  case Nil
  then show ?case by (simp add: updated_ident)
next
  case (Cons p ps)
  have inner: "foldE (\<lambda>arguments (start, end). append_to k (slice text start end) arguments) d ms =
      Inr (updated k (\<lambda>l. l @ map (\<lambda>(start, end). slice text start end) ms) d)" for ms
    using foldE_append_to [OF Cons.prems, of "\<lambda>(start, end). slice text start end" ms]
    by (simp add: case_prod_unfold)
  have "k \<in> fst ` set (updated k f d)" for f
    using Cons.prems by (simp only: in_keys_updated)
  note IH = Cons.IH [OF this] Cons.IH [OF Cons.prems]
  show ?case
    by (simp add: inner IH updated_updated)
qed

lemma keyword_arguments_closed:
  "keyword_arguments text
     [(''vessel'', v), (''location'', l), (''cause'', c),
      (''time'', t), (''damage'', dm), (''response'', r)] =
   Inr [(''vessel'', v @ keyword_strings text ''vessel''),
        (''location'', l @ keyword_strings text ''location''),
        (''cause'', c @ keyword_strings text ''cause''),
        (''time'', t @ keyword_strings text ''time''),
        (''damage'', dm @ keyword_strings text ''damage''),
        (''response'', r @ keyword_strings text ''response'')]"
proof -
  define body where "body = (\<lambda>arguments (arg_type, patterns).
       foldE (\<lambda>arguments pattern.
         if py_in (py_lower pattern) (py_lower text)
         then foldE (\<lambda>arguments (start, end). append_to arg_type (slice text start end) arguments)
                arguments (finditer True pattern (py_lower text))
         else Inr arguments) arguments patterns)"
  have B: "body d (k, P) = Inr (updated k (\<lambda>l. l @ keyword_hits text P) d)"
    if "k \<in> fst ` set d" for k P d
    unfolding body_def prod.case keyword_hits_def
    by (rule keyword_pattern_loop [OF that])
  obtain P1 P2 P3 P4 P5 P6 where ap: "argument_patterns =
      [(''vessel'', P1), (''location'', P2), (''cause'', P3),
       (''time'', P4), (''damage'', P5), (''response'', P6)]"
    by (simp add: argument_patterns_def)
  have ks: "keyword_strings text ''vessel'' = keyword_hits text P1"
    "keyword_strings text ''location'' = keyword_hits text P2"
    "keyword_strings text ''cause'' = keyword_hits text P3"
    "keyword_strings text ''time'' = keyword_hits text P4"
    "keyword_strings text ''damage'' = keyword_hits text P5"
    "keyword_strings text ''response'' = keyword_hits text P6"
    by (simp_all add: keyword_strings_def ap)
  have "keyword_arguments text
     [(''vessel'', v), (''location'', l), (''cause'', c),
      (''time'', t), (''damage'', dm), (''response'', r)] =
     foldE body [(''vessel'', v), (''location'', l), (''cause'', c),
      (''time'', t), (''damage'', dm), (''response'', r)] argument_patterns"
    by (simp add: keyword_arguments_def body_def Let_def)
  also have "\<dots> = Inr [(''vessel'', v @ keyword_hits text P1),
        (''location'', l @ keyword_hits text P2),
        (''cause'', c @ keyword_hits text P3),
        (''time'', t @ keyword_hits text P4),
        (''damage'', dm @ keyword_hits text P5),
        (''response'', r @ keyword_hits text P6)]"
    unfolding ap by (simp add: B)
  finally show ?thesis by (simp only: ks)
qed

lemma ner_arguments_closed:
  "foldE ner_argument
     [(''vessel'', v), (''location'', l), (''cause'', c),
      (''time'', t), (''damage'', dm), (''response'', r)] es =
   Inr [(''vessel'', v @ map ent_text (filter (\<lambda>e. ent_label e = ''ORG'' \<and> \<not> mentions_responder (ent_text e)) es)),
        (''location'', l @ map ent_text (filter (\<lambda>e. ent_label e \<in> {''GPE'', ''LOC'', ''FAC''}) es)),
        (''cause'', c),
        (''time'', t @ map ent_text (filter (\<lambda>e. ent_label e \<in> {''DATE'', ''TIME''}) es)),
        (''damage'', dm),
        (''response'', r @ map ent_text (filter (\<lambda>e. ent_label e = ''ORG'' \<and> mentions_responder (ent_text e)) es))]"
proof (induction es arbitrary: v l t r)
  case Nil
  then show ?case by simp
next
  case (Cons e es)
  consider (loc) "ent_label e \<in> {''GPE'', ''LOC'', ''FAC''}"
    | (time) "ent_label e \<in> {''DATE'', ''TIME''}"
    | (resp) "ent_label e = ''ORG''" "mentions_responder (ent_text e)"
    | (vessel) "ent_label e = ''ORG''" "\<not> mentions_responder (ent_text e)"
    | (other) "ent_label e \<notin> {''GPE'', ''LOC'', ''FAC'', ''DATE'', ''TIME'', ''ORG''}"
    by blast
  then show ?case
  proof cases
    case loc
    then have "ner_argument [(''vessel'', v), (''location'', l), (''cause'', c),
      (''time'', t), (''damage'', dm), (''response'', r)] e =
      Inr [(''vessel'', v), (''location'', l @ [ent_text e]), (''cause'', c),
      (''time'', t), (''damage'', dm), (''response'', r)]"
      by (simp add: ner_argument_def append_to_def)
    with loc show ?thesis by (auto simp: Cons.IH)
  next
    case time
    then have "ner_argument [(''vessel'', v), (''location'', l), (''cause'', c),
      (''time'', t), (''damage'', dm), (''response'', r)] e =
      Inr [(''vessel'', v), (''location'', l), (''cause'', c),
      (''time'', t @ [ent_text e]), (''damage'', dm), (''response'', r)]"
      by (auto simp: ner_argument_def append_to_def)
    with time show ?thesis by (auto simp: Cons.IH)
  next
    case resp
    then have "ner_argument [(''vessel'', v), (''location'', l), (''cause'', c),
      (''time'', t), (''damage'', dm), (''response'', r)] e =
      Inr [(''vessel'', v), (''location'', l), (''cause'', c),
      (''time'', t), (''damage'', dm), (''response'', r @ [ent_text e])]"
      by (simp add: ner_argument_def append_to_def mentions_responder_def)
    with resp show ?thesis by (simp add: Cons.IH)
  next
    case vessel
    then have "ner_argument [(''vessel'', v), (''location'', l), (''cause'', c),
      (''time'', t), (''damage'', dm), (''response'', r)] e =
      Inr [(''vessel'', v @ [ent_text e]), (''location'', l), (''cause'', c),
      (''time'', t), (''damage'', dm), (''response'', r)]"
      by (simp add: ner_argument_def append_to_def mentions_responder_def)
    with vessel show ?thesis by (simp add: Cons.IH)
  next
    case other
    then have "ner_argument [(''vessel'', v), (''location'', l), (''cause'', c),
      (''time'', t), (''damage'', dm), (''response'', r)] e =
      Inr [(''vessel'', v), (''location'', l), (''cause'', c),
      (''time'', t), (''damage'', dm), (''response'', r)]"
      by (simp add: ner_argument_def)
    with other show ?thesis by (simp add: Cons.IH)
  qed
qed

lemma dependency_arguments_closed:
  "dependency_arguments d
     [(''vessel'', v), (''location'', l), (''cause'', c),
      (''time'', t), (''damage'', dm), (''response'', r)] =
   Inr [(''vessel'', v @ subject_vessels d), (''location'', l), (''cause'', c),
        (''time'', t), (''damage'', dm), (''response'', r)]"
proof -
  let ?P = "\<lambda>token. tok_pos token = ''PROPN'' \<and> tok_dep token \<in> set [''nsubj'', ''nsubjpass''] \<and>
       (\<exists>trigger \<in> set trigger_patterns. py_in trigger (py_lower (head_text d token)))"
  let ?D = "[(''vessel'', v), (''location'', l), (''cause'', c),
      (''time'', t), (''damage'', dm), (''response'', r)]"
  have "dependency_arguments d ?D =
      foldE (\<lambda>a token. if ?P token then append_to ''vessel'' (tok_text token) a else Inr a) ?D (tokens d)"
    unfolding dependency_arguments_def
    by (rule arg_cong [where f = "\<lambda>b. foldE b ?D (tokens d)"]) (auto simp: fun_eq_iff)
  also have "\<dots> = Inr (updated ''vessel'' (\<lambda>l. l @ map tok_text (filter ?P (tokens d))) ?D)"
    by (rule foldE_cond_append_to) simp
  finally show ?thesis
    by (simp add: subject_vessels_def)
qed

lemma entity_strings_simps:
  "entity_strings d ''vessel'' =
     entity_texts (\<lambda>e. ent_label e = ''ORG'' \<and> \<not> mentions_responder (ent_text e)) d"
  "entity_strings d ''location'' = entity_texts (\<lambda>e. ent_label e \<in> {''GPE'', ''LOC'', ''FAC''}) d"
  "entity_strings d ''cause'' = []"
  "entity_strings d ''time'' = entity_texts (\<lambda>e. ent_label e \<in> {''DATE'', ''TIME''}) d"
  "entity_strings d ''damage'' = []"
  "entity_strings d ''response'' =
     entity_texts (\<lambda>e. ent_label e = ''ORG'' \<and> mentions_responder (ent_text e)) d"
  unfolding entity_strings_def entity_texts_def entity_category_def
  by (auto intro!: arg_cong [where f = "map ent_text"] filter_cong)

lemma extract_arguments_unloaded: "extract_arguments None text = Inr []"
  by (simp add: extract_arguments_def)

lemma extract_arguments_loaded:
  "extract_arguments (Some analyze) text =
     Inr (map (\<lambda>(arg_type, _).
            (arg_type, list_set (keyword_strings text arg_type @
                                 entity_strings (analyze text) arg_type @
                                 dependency_strings (analyze text) arg_type)))
          argument_patterns)"
proof -
  have init: "map (\<lambda>(arg_type, _). (arg_type, [])) argument_patterns =
      [(''vessel'', []), (''location'', []), (''cause'', []),
       (''time'', []), (''damage'', []), (''response'', [])]"
    by (simp add: argument_patterns_def)
  have fin: "map (\<lambda>(arg_type, _). (arg_type, F arg_type)) argument_patterns =
      [(''vessel'', F ''vessel''), (''location'', F ''location''), (''cause'', F ''cause''),
       (''time'', F ''time''), (''damage'', F ''damage''), (''response'', F ''response'')]"
    for F :: "string \<Rightarrow> string list"
    by (simp add: argument_patterns_def)
  show ?thesis
    unfolding extract_arguments_def option.case Let_def init fin
      keyword_arguments_closed bindE.simps ner_arguments_def ner_arguments_closed
      dependency_arguments_closed
    by (simp add: entity_strings_simps dependency_strings_def entity_texts_def)
qed

lemma foldE_invariant:
  "I s \<Longrightarrow> (\<And>s x. I s \<Longrightarrow> x \<in> set xs \<Longrightarrow> \<exists>s'. body s x = Inr s' \<and> I s') \<Longrightarrow>
     \<exists>s'. foldE body s xs = Inr s' \<and> I s'"
proof (induction xs arbitrary: s)
  case Nil
  then show ?case by simp
next
  case (Cons x xs)
  from Cons.prems obtain s1 where s1: "body s x = Inr s1" "I s1"
    by (meson list.set_intros(1))
  from Cons.IH [OF s1(2)] Cons.prems(2) obtain s' where "foldE body s1 xs = Inr s'" "I s'"
    by (meson list.set_intros(2))
  with s1 show ?case by simp
qed

lemma append_phrase_shape:
  assumes "dependency_shape s" and "key \<in> {''vessels'', ''locations'', ''causes''}"
  shows "\<exists>s'. append_phrase key d child s = Inr s' \<and> dependency_shape s'"
  using assms
  by (auto simp: dependency_shape_def append_phrase_def append_to_def Let_def)

lemma extract_with_dependency_shape:
  "\<exists>extracted. extract_with_dependency d = Inr extracted \<and> dependency_shape extracted"
  unfolding extract_with_dependency_def
proof (rule foldE_invariant [where I = dependency_shape], goal_cases)
  case 1
  show ?case by (simp add: dependency_shape_def)
next
  case (2 s token)
  have subj: "\<exists>s'. foldE (\<lambda>extracted child.
                 if tok_dep child \<in> set [''nsubj'', ''nsubjpass'']
                 then append_phrase ''vessels'' d child extracted
                 else Inr extracted) s cs = Inr s' \<and> dependency_shape s'"
    if "dependency_shape s" for s cs
    by (rule foldE_invariant [where I = dependency_shape, OF that]) (auto intro: append_phrase_shape)
  have pobj: "\<exists>s'. foldE (\<lambda>extracted grandchild.
                          if tok_dep grandchild = ''pobj''
                          then append_phrase ''locations'' d grandchild extracted
                          else Inr extracted) s gs = Inr s' \<and> dependency_shape s'"
    if "dependency_shape s" for s gs
    by (rule foldE_invariant [where I = dependency_shape, OF that]) (auto intro: append_phrase_shape)
  have prep: "\<exists>s'. foldE (\<lambda>extracted child.
                   if tok_dep child = ''prep''
                   then foldE (\<lambda>extracted grandchild.
                          if tok_dep grandchild = ''pobj''
                          then append_phrase ''locations'' d grandchild extracted
                          else Inr extracted) extracted (children d child)
                   else Inr extracted) s cs = Inr s' \<and> dependency_shape s'"
    if "dependency_shape s" for s cs
    by (rule foldE_invariant [where I = dependency_shape, OF that]) (auto intro: pobj)
  have cause: "\<exists>s'. foldE (\<lambda>extracted child.
                   if tok_dep child \<in> set [''pobj'', ''agent'']
                   then append_phrase ''causes'' d child extracted
                   else Inr extracted) s cs = Inr s' \<and> dependency_shape s'"
    if "dependency_shape s" for s cs
    by (rule foldE_invariant [where I = dependency_shape, OF that]) (auto intro: append_phrase_shape)
  from subj [OF 2(1)] obtain s1 where s1: "foldE (\<lambda>extracted child.
                 if tok_dep child \<in> set [''nsubj'', ''nsubjpass'']
                 then append_phrase ''vessels'' d child extracted
                 else Inr extracted) s (children d token) = Inr s1" "dependency_shape s1"
    by blast
  from prep [OF s1(2)] obtain s2 where s2: "foldE (\<lambda>extracted child.
                   if tok_dep child = ''prep''
                   then foldE (\<lambda>extracted grandchild.
                          if tok_dep grandchild = ''pobj''
                          then append_phrase ''locations'' d grandchild extracted
                          else Inr extracted) extracted (children d child)
                   else Inr extracted) s1 (children d token) = Inr s2" "dependency_shape s2"
    by blast
  from cause [OF s2(2)] obtain s3 where s3: "foldE (\<lambda>extracted child.
                   if tok_dep child \<in> set [''pobj'', ''agent'']
                   then append_phrase ''causes'' d child extracted
                   else Inr extracted) s2 (children d token) = Inr s3" "dependency_shape s3"
    by blast
  from cause [OF 2(1)] obtain s4 where s4: "foldE (\<lambda>extracted child.
                   if tok_dep child \<in> set [''pobj'', ''agent'']
                   then append_phrase ''causes'' d child extracted
                   else Inr extracted) s (children d token) = Inr s4" "dependency_shape s4"
    by blast
  show ?case
    using s1 s2 s3 s4 2(1) by (simp del: set_simps)
qed

lemma extract_with_ner_closed:
  "extract_with_ner d =
   Inr [(''organizations'', entity_texts (\<lambda>e. ent_label e = ''ORG'') d),
        (''locations'', entity_texts (\<lambda>e. ent_label e \<in> {''GPE'', ''LOC'', ''FAC''}) d),
        (''times'', entity_texts (\<lambda>e. ent_label e \<in> {''DATE'', ''TIME''}) d),
        (''persons'', entity_texts (\<lambda>e. ent_label e = ''PERSON'') d)]"
proof -
  define B :: "string list dict \<Rightarrow> entity \<Rightarrow> py_error + string list dict"
    where "B = (\<lambda>extracted ent.
       if ent_label ent = ''ORG'' then append_to ''organizations'' (ent_text ent) extracted
       else if ent_label ent \<in> set [''GPE'', ''LOC'', ''FAC'']
         then append_to ''locations'' (ent_text ent) extracted
       else if ent_label ent \<in> set [''DATE'', ''TIME'']
         then append_to ''times'' (ent_text ent) extracted
       else if ent_label ent = ''PERSON'' then append_to ''persons'' (ent_text ent) extracted
       else Inr extracted)"
  define one where "one P e = (if P (ent_label e) then [ent_text e] else [])"
    for P :: "string \<Rightarrow> bool" and e :: entity
  define D where "D og l t p =
      [(''organizations'', og), (''locations'', l), (''times'', t), (''persons'', p :: string list)]"
    for og l t p :: "string list"
  have step: "B (D og l t p) e =
      Inr (D (og @ one (\<lambda>x. x = ''ORG'') e) (l @ one (\<lambda>x. x \<in> {''GPE'', ''LOC'', ''FAC''}) e)
             (t @ one (\<lambda>x. x \<in> {''DATE'', ''TIME''}) e) (p @ one (\<lambda>x. x = ''PERSON'') e))"
    for og l t p and e :: entity
  proof -
    consider (org) "ent_label e = ''ORG''"
      | (loc) "ent_label e \<in> {''GPE'', ''LOC'', ''FAC''}"
      | (time) "ent_label e \<in> {''DATE'', ''TIME''}"
      | (person) "ent_label e = ''PERSON''"
      | (other) "ent_label e \<notin> {''GPE'', ''LOC'', ''FAC'', ''DATE'', ''TIME'', ''ORG'', ''PERSON''}"
      by blast
    then show ?thesis
    proof cases
      case org then show ?thesis by (simp add: B_def D_def one_def append_to_def)
    next
      case loc then show ?thesis by (auto simp: B_def D_def one_def append_to_def)
    next
      case time then show ?thesis by (auto simp: B_def D_def one_def append_to_def)
    next
      case person then show ?thesis by (simp add: B_def D_def one_def append_to_def)
    next
      case other then show ?thesis by (simp add: B_def D_def one_def)
    qed
  qed
  have flt: "map ent_text (filter (\<lambda>e. P (ent_label e)) (e # es)) =
      one P e @ map ent_text (filter (\<lambda>e. P (ent_label e)) es)"
    for P and e :: entity and es
    by (simp add: one_def)
  have loop: "foldE B (D og l t p) es =
     Inr (D (og @ map ent_text (filter (\<lambda>e. ent_label e = ''ORG'') es))
            (l @ map ent_text (filter (\<lambda>e. ent_label e \<in> {''GPE'', ''LOC'', ''FAC''}) es))
            (t @ map ent_text (filter (\<lambda>e. ent_label e \<in> {''DATE'', ''TIME''}) es))
            (p @ map ent_text (filter (\<lambda>e. ent_label e = ''PERSON'') es)))"
    for og l t p and es :: "entity list"
  proof (induction es arbitrary: og l t p)
    case Nil
    then show ?case by simp
  next
    case (Cons e es)
    show ?case
      by (simp only: foldE.simps step sum.case Cons.IH append_assoc
            flt [of "\<lambda>x. x = ''ORG''"] flt [of "\<lambda>x. x \<in> {''GPE'', ''LOC'', ''FAC''}"]
            flt [of "\<lambda>x. x \<in> {''DATE'', ''TIME''}"] flt [of "\<lambda>x. x = ''PERSON''"])
  qed
  have "extract_with_ner d = foldE B (D [] [] [] []) (ents d)"
    by (simp add: extract_with_ner_def B_def D_def)
  also note loop
  finally show ?thesis
    by (simp add: D_def entity_texts_def)
qed

lemma extract_with_matcher_closed:
  "extract_with_matcher matcher d =
   Inr [(''triggers'', matched ''TRIGGER'' (matcher d)),
        (''vessels'', matched ''VESSEL'' (matcher d)),
        (''locations'', matched ''LOCATION'' (matcher d)),
        (''causes'', matched ''CAUSE'' (matcher d)),
        (''damages'', matched ''DAMAGE'' (matcher d)),
        (''responses'', matched ''RESPONSE'' (matcher d))]"
proof -
  define B :: "string list dict \<Rightarrow> string \<times> string \<Rightarrow> py_error + string list dict"
    where "B = (\<lambda>extracted (match_label, span_text).
       if match_label = ''TRIGGER'' then append_to ''triggers'' span_text extracted
       else if match_label = ''VESSEL'' then append_to ''vessels'' span_text extracted
       else if match_label = ''LOCATION'' then append_to ''locations'' span_text extracted
       else if match_label = ''CAUSE'' then append_to ''causes'' span_text extracted
       else if match_label = ''DAMAGE'' then append_to ''damages'' span_text extracted
       else if match_label = ''RESPONSE'' then append_to ''responses'' span_text extracted
       else Inr extracted)"
  define one where "one k m = (if fst m = k then [snd m] else [])" for k :: string and m :: "string \<times> string"
  define D where "D t v l c dm r =
      [(''triggers'', t), (''vessels'', v), (''locations'', l),
       (''causes'', c), (''damages'', dm), (''responses'', r :: string list)]"
    for t v l c dm r :: "string list"
  have step: "B (D t v l c dm r) m =
      Inr (D (t @ one ''TRIGGER'' m) (v @ one ''VESSEL'' m) (l @ one ''LOCATION'' m)
             (c @ one ''CAUSE'' m) (dm @ one ''DAMAGE'' m) (r @ one ''RESPONSE'' m))"
    for t v l c dm r m
  proof -
    obtain label span where m: "m = (label, span)" by (cases m)
    consider (t) "label = ''TRIGGER''" | (v) "label = ''VESSEL''" | (l) "label = ''LOCATION''"
      | (c) "label = ''CAUSE''" | (d) "label = ''DAMAGE''" | (r) "label = ''RESPONSE''"
      | (other) "label \<notin> {''TRIGGER'', ''VESSEL'', ''LOCATION'', ''CAUSE'', ''DAMAGE'', ''RESPONSE''}"
      unfolding insert_iff empty_iff by argo
    then show ?thesis
    proof cases
      case t then show ?thesis by (simp add: B_def D_def one_def append_to_def m)
    next
      case v then show ?thesis by (simp add: B_def D_def one_def append_to_def m)
    next
      case l then show ?thesis by (simp add: B_def D_def one_def append_to_def m)
    next
      case c then show ?thesis by (simp add: B_def D_def one_def append_to_def m)
    next
      case d then show ?thesis by (simp add: B_def D_def one_def append_to_def m)
    next
      case r then show ?thesis by (simp add: B_def D_def one_def append_to_def m)
    next
      case other then show ?thesis by (simp add: B_def D_def one_def m)
    qed
  qed
  have mt: "matched k (m # ms) = one k m @ matched k ms" for k m ms
    by (simp add: matched_def one_def case_prod_unfold)
  have loop: "foldE B (D t v l c dm r) ms =
     Inr (D (t @ matched ''TRIGGER'' ms) (v @ matched ''VESSEL'' ms) (l @ matched ''LOCATION'' ms)
            (c @ matched ''CAUSE'' ms) (dm @ matched ''DAMAGE'' ms) (r @ matched ''RESPONSE'' ms))"
    for t v l c dm r ms
  proof (induction ms arbitrary: t v l c dm r)
    case Nil
    then show ?case by (simp add: matched_def)
  next
    case (Cons m ms)
    show ?case
      by (simp only: foldE.simps step sum.case Cons.IH mt append_assoc)
  qed
  have "extract_with_matcher matcher d = foldE B (D [] [] [] [] [] []) (matcher d)"
    by (simp add: extract_with_matcher_def B_def D_def)
  also note loop
  finally show ?thesis
    by (simp add: D_def)
qed

lemma merge_arguments_closed:
  "merge_arguments
     [(''triggers'', mt), (''vessels'', mv), (''locations'', ml),
      (''causes'', mc), (''damages'', md), (''responses'', mr)]
     [(''organizations'', og), (''locations'', nl), (''times'', nt), (''persons'', np)]
     [(''vessels'', dv), (''locations'', dl), (''causes'', dc),
      (''times'', dt), (''damages'', dd), (''responses'', dr)] =
   Inr [(''vessels'', list_set (mv @ dv @ ship_organizations og)),
        (''locations'', list_set (ml @ nl @ dl)),
        (''times'', list_set (nt @ dt)),
        (''causes'', list_set (mc @ dc)),
        (''damages'', list_set (md @ dd)),
        (''responses'', list_set (mr @ dr)),
        (''persons'', np)]"
  by (simp add: merge_arguments_def)

lemma extract_Spacy_unloaded: "extract_Spacy None matcher text = Inr None"
  by (simp add: extract_Spacy_def)

lemma extract_Spacy_loaded:
  "extract_Spacy (Some analyze) matcher text =
     Inr (Some
       \<lparr>s_text = (if 200 < length text then take 200 text @ ''...'' else text),
        s_trigger_words = list_set (matched ''TRIGGER'' (matcher (analyze text))),
        s_event_type = determine_event_type (matched ''TRIGGER'' (matcher (analyze text))),
        s_arguments = spacy_arguments matcher (analyze text),
        s_linguistic_features =
          \<lparr>pos_tags = take 10 (map (\<lambda>token. (tok_text token, tok_pos token)) (tokens (analyze text))),
           dependencies =
             take 10 (map (\<lambda>token. (tok_text token, tok_dep token, head_text (analyze text) token))
                        (filter (\<lambda>token. tok_dep token \<noteq> ''punct'') (tokens (analyze text)))),
           entities = map (\<lambda>ent. (ent_text ent, ent_label ent)) (ents (analyze text))\<rparr>\<rparr>)"
proof -
  define d where "d = analyze text"
  from extract_with_dependency_shape [of d] obtain dv dl dc where
    dep: "extract_with_dependency d =
      Inr [(''vessels'', dv), (''locations'', dl), (''causes'', dc),
           (''times'', []), (''damages'', []), (''responses'', [])]"
    by (auto simp: dependency_shape_def)
  have dvals: "dependency_values d ''vessels'' = dv" "dependency_values d ''locations'' = dl"
    "dependency_values d ''causes'' = dc" "dependency_values d ''times'' = []"
    "dependency_values d ''damages'' = []" "dependency_values d ''responses'' = []"
    by (simp_all add: dependency_values_def dep)
  have args: "merge_arguments
     [(''triggers'', matched ''TRIGGER'' (matcher d)),
        (''vessels'', matched ''VESSEL'' (matcher d)),
        (''locations'', matched ''LOCATION'' (matcher d)),
        (''causes'', matched ''CAUSE'' (matcher d)),
        (''damages'', matched ''DAMAGE'' (matcher d)),
        (''responses'', matched ''RESPONSE'' (matcher d))]
     [(''organizations'', entity_texts (\<lambda>e. ent_label e = ''ORG'') d),
        (''locations'', entity_texts (\<lambda>e. ent_label e \<in> {''GPE'', ''LOC'', ''FAC''}) d),
        (''times'', entity_texts (\<lambda>e. ent_label e \<in> {''DATE'', ''TIME''}) d),
        (''persons'', entity_texts (\<lambda>e. ent_label e = ''PERSON'') d)]
     [(''vessels'', dv), (''locations'', dl), (''causes'', dc),
           (''times'', []), (''damages'', []), (''responses'', [])] =
     Inr (spacy_arguments matcher d)"
    unfolding merge_arguments_closed spacy_arguments_def dvals ..
  have trg: "dict_get [(''triggers'', matched ''TRIGGER'' (matcher d)),
        (''vessels'', matched ''VESSEL'' (matcher d)),
        (''locations'', matched ''LOCATION'' (matcher d)),
        (''causes'', matched ''CAUSE'' (matcher d)),
        (''damages'', matched ''DAMAGE'' (matcher d)),
        (''responses'', matched ''RESPONSE'' (matcher d))] ''triggers'' =
      Inr (matched ''TRIGGER'' (matcher d))"
    by simp
  show ?thesis
    unfolding extract_Spacy_def option.case Let_def d_def [symmetric]
      extract_with_matcher_closed extract_with_ner_closed dep bindE.simps trg args ..
qed

lemma extract_Grounding_closed:
  "extract_Grounding nlp text =
     Inr \<lparr>res_text = text,
          res_trigger_words = map fst (extract_trigger_words text),
          res_event_type =
            (if extract_trigger_words text = [] then ''unknown''
             else first_highest (extract_trigger_words text)),
          res_arguments =
            (case nlp of
               None \<Rightarrow> []
             | Some analyze \<Rightarrow>
                 map (\<lambda>(arg_type, _).
                   (arg_type, list_set (keyword_strings text arg_type @
                                        entity_strings (analyze text) arg_type @
                                        dependency_strings (analyze text) arg_type)))
                   argument_patterns),
          res_trigger_positions = extract_trigger_words text\<rparr>"
proof -
  have et: "extract_event_type text (extract_trigger_words text) =
      Inr (if extract_trigger_words text = [] then ''unknown''
           else first_highest (extract_trigger_words text))"
    using extract_event_type_first_highest [of "extract_trigger_words text" "text"]
    by (simp add: extract_event_type_def)
  show ?thesis
  proof (cases nlp)
    case None
    then show ?thesis
      unfolding extract_Grounding_def Let_def et bindE.simps
      by (simp add: extract_arguments_unloaded)
  next
    case (Some analyze)
    then show ?thesis
      unfolding extract_Grounding_def Let_def et bindE.simps
      by (simp add: extract_arguments_loaded)
  qed
qed

section \<open>The extraction result\<close>

text \<open>
  Claim C5. When trigger extraction finds nothing, the event type is the string
  \<open>unknown\<close>: in the keyword-centric variant whenever \<open>extract_trigger_words\<close>
  returns the empty list, in the matcher-centric variant whenever the matcher results hold
  no trigger; both resolvers return \<open>unknown\<close> on the empty list.
\<close>

theorem no_triggers_unknown:
  "(extract_trigger_words text = [] \<longrightarrow>
      (\<exists>r. extract_Grounding nlp text = Inr r \<and> res_event_type r = ''unknown'')) \<and>
   (extract_with_matcher matcher (analyze text) = Inr matcher_results \<and>
    dict_get matcher_results ''triggers'' = Inr [] \<longrightarrow>
      (\<exists>r. extract_Spacy (Some analyze) matcher text = Inr (Some r) \<and>
           s_event_type r = ''unknown'')) \<and>
   extract_event_type text [] = Inr ''unknown'' \<and>
   determine_event_type [] = ''unknown''"
proof (intro conjI impI)
  assume "extract_trigger_words text = []"
  then show "\<exists>r. extract_Grounding nlp text = Inr r \<and> res_event_type r = ''unknown''"
    by (simp add: extract_Grounding_closed)
next
  assume "extract_with_matcher matcher (analyze text) = Inr matcher_results \<and>
    dict_get matcher_results ''triggers'' = Inr []"
  then have "matched ''TRIGGER'' (matcher (analyze text)) = []"
    by (auto simp: extract_with_matcher_closed)
  then show "\<exists>r. extract_Spacy (Some analyze) matcher text = Inr (Some r) \<and>
           s_event_type r = ''unknown''"
    by (simp add: extract_Spacy_loaded determine_event_type_def)
next
  show "extract_event_type text [] = Inr ''unknown''"
    by (simp add: extract_event_type_def)
next
  show "determine_event_type [] = ''unknown''"
    by (simp add: determine_event_type_def)
qed

text \<open>
  The text \<open>calm sea\<close> has no trigger keyword, and a matcher that reports nothing
  leaves the trigger list empty.
\<close>

theorem no_triggers_unknown_witness:
  "extract_trigger_words ''calm sea'' = [] \<and>
   map_sum id res_event_type (extract_Grounding None ''calm sea'') = Inr ''unknown'' \<and>
   extract_with_matcher no_matches (blank_nlp ''calm sea'') =
     Inr [(''triggers'', []), (''vessels'', []), (''locations'', []),
          (''causes'', []), (''damages'', []), (''responses'', [])] \<and>
   map_sum id (map_option s_event_type) (extract_Spacy (Some blank_nlp) no_matches ''calm sea'')
     = Inr (Some ''unknown'')"
proof -
  have a: "extract_trigger_words ''calm sea'' = []"
    by code_simp
  have b: "extract_with_matcher no_matches (blank_nlp ''calm sea'') =
     Inr [(''triggers'', []), (''vessels'', []), (''locations'', []),
          (''causes'', []), (''damages'', []), (''responses'', [])]"
    by (simp add: extract_with_matcher_def no_matches_def)
  have c: "dict_get [(''triggers'', []), (''vessels'', []), (''locations'', []),
          (''causes'', []), (''damages'', []), (''responses'', [])] ''triggers'' = Inr ([] :: string list)"
    by simp
  note T = no_triggers_unknown [of "''calm sea''" None no_matches blank_nlp
      "[(''triggers'', []), (''vessels'', []), (''locations'', []),
        (''causes'', []), (''damages'', []), (''responses'', [])]"]
  from T [THEN conjunct1, rule_format, OF a]
  have "map_sum id res_event_type (extract_Grounding None ''calm sea'') = Inr ''unknown''"
    by auto
  moreover from T [THEN conjunct2, THEN conjunct1, rule_format, OF conjI [OF b c]]
  have "map_sum id (map_option s_event_type) (extract_Spacy (Some blank_nlp) no_matches ''calm sea'')
     = Inr (Some ''unknown'')"
    by auto
  ultimately show ?thesis using a b by simp
qed

text \<open>
  Claim C8, as stated, fails for the matcher-centric variant: for a text of 201
  characters the \<open>text\<close> field holds the first 200 followed by three dots.
\<close>

theorem spacy_text_field_truncated:
  "map_sum id (map_option s_text)
     (extract_Spacy (Some blank_nlp) no_matches (replicate 201 (CHR ''a''))) =
     Inr (Some (replicate 200 (CHR ''a'') @ ''...'')) \<and>
   replicate 200 (CHR ''a'') @ ''...'' \<noteq> replicate 201 (CHR ''a'')"
proof -
  have "length (replicate 200 (CHR ''a'') @ ''...'') \<noteq> length (replicate 201 (CHR ''a''))"
    by simp
  then have "replicate 200 (CHR ''a'') @ ''...'' \<noteq> replicate 201 (CHR ''a'')"
    by metis
  then show ?thesis
    by (simp add: extract_Spacy_loaded)
qed

text \<open>
  Claim C8, amended. In the keyword-centric variant the \<open>text\<close> field equals the
  input. In the matcher-centric variant, with the model loaded, it equals the input when the
  input has at most 200 characters and is otherwise its first 200 characters followed by
  \<open>...\<close>.
\<close>

theorem text_field_of_result:
  "(\<exists>r. extract_Grounding nlp text = Inr r \<and> res_text r = text) \<and>
   (\<exists>r. extract_Spacy (Some analyze) matcher text = Inr (Some r) \<and>
        s_text r = (if 200 < length text then take 200 text @ ''...'' else text))"
  by (simp add: extract_Grounding_closed extract_Spacy_loaded)

text \<open>
  Claim C2, as stated, fails for the keyword-centric variant: without the model the
  arguments mapping is empty, although the text \<open>ship aground\<close> contains the vessel
  keyword \<open>ship\<close>, which the keyword step reports once a model is loaded (here one that
  finds nothing itself).
\<close>

theorem no_keyword_arguments_without_model:
  "map_sum id res_arguments (extract_Grounding None ''ship aground'') = Inr [] \<and>
   map_sum id (grounding_argument ''vessel'') (extract_Grounding None ''ship aground'') =
     Inr (Inl KeyError) \<and>
   map_sum id (grounding_argument ''vessel'') (extract_Grounding (Some blank_nlp) ''ship aground'') =
     Inr (Inr [''ship''])"
proof -
  have k: "keyword_strings ''ship aground'' ''vessel'' = [''ship'']"
    by code_simp
  have e: "entity_strings (blank_nlp t) c = []" "dependency_strings (blank_nlp t) c = []" for t c
    by (simp_all add: entity_strings_def entity_texts_def dependency_strings_def
        subject_vessels_def blank_nlp_def empty_doc_def)
  have fin: "map (\<lambda>(arg_type, _). (arg_type, F arg_type)) argument_patterns =
      [(''vessel'', F ''vessel''), (''location'', F ''location''), (''cause'', F ''cause''),
       (''time'', F ''time''), (''damage'', F ''damage''), (''response'', F ''response'')]"
    for F :: "string \<Rightarrow> string list"
    by (simp add: argument_patterns_def)
  show ?thesis
    unfolding extract_Grounding_closed fin
    by (simp add: k e list_set_def grounding_argument_def)
qed

text \<open>
  Claim C2, amended. When the model could not be loaded, the keyword-centric
  \<open>extract\<close> still returns the text, the trigger matches and the event type resolved
  from them, with an empty arguments mapping (no keyword-substring argument is extracted);
  the matcher-centric \<open>extract\<close> returns the empty result. Neither call raises.
\<close>

theorem extract_without_model:
  "(\<exists>event_type.
      extract_event_type text (extract_trigger_words text) = Inr event_type \<and>
      extract_Grounding None text =
        Inr \<lparr>res_text = text,
             res_trigger_words = map fst (extract_trigger_words text),
             res_event_type = event_type,
             res_arguments = [],
             res_trigger_positions = extract_trigger_words text\<rparr>) \<and>
   extract_Spacy None matcher text = Inr None"
proof -
  have "extract_event_type text (extract_trigger_words text) =
      Inr (if extract_trigger_words text = [] then ''unknown''
           else first_highest (extract_trigger_words text))"
    using extract_event_type_first_highest [of "extract_trigger_words text" "text"]
    by (simp add: extract_event_type_def)
  then show ?thesis
    by (simp add: extract_Grounding_closed extract_Spacy_unloaded)
qed


section \<open>Substrings of lowered text\<close>

lemma py_in_subset: "py_in sub s \<Longrightarrow> set sub \<subseteq> set s"
proof (induction s)
  case Nil
  then show ?case by simp
next
  case (Cons c cs)
  from Cons.prems have "take (length sub) (c # cs) = sub \<or> py_in sub cs"
    by simp
  then show ?case
  proof
    assume "take (length sub) (c # cs) = sub"
    then have "set sub = set (take (length sub) (c # cs))" by simp
    also have "\<dots> \<subseteq> set (c # cs)" by (rule set_take_subset)
    finally show ?thesis .
  next
    assume "py_in sub cs"
    with Cons.IH show ?thesis by auto
  qed
qed

lemma capital_not_in_lowered:
  assumes "c \<in> set sub" and "lower_char c \<noteq> c"
  shows "\<not> py_in sub (py_lower s)"
proof
  assume "py_in sub (py_lower s)"
  then have "c \<in> set (py_lower s)"
    using assms(1) py_in_subset by blast
  then obtain x where "c = lower_char x"
    by (auto simp: py_lower_def)
  then have "lower_char c = c"
    by (simp add: lower_char_idem)
  with assms(2) show False by simp
qed

lemma ship_organizations_four:
  "ship_organizations organizations =
     filter (\<lambda>org. \<exists>w \<in> set [''ship'', ''vessel'', ''tanker'', ''ferry'']. py_in w (py_lower org))
       organizations"
proof -
  have M: "lower_char (CHR ''M'') \<noteq> CHR ''M''"
    by (simp add: lower_char_def char_of_eq_iff)
  have "\<not> py_in ''MV'' (py_lower s)" "\<not> py_in ''MT'' (py_lower s)" "\<not> py_in ''MS'' (py_lower s)" for s
    using capital_not_in_lowered [OF _ M] by simp_all
  then show ?thesis
    by (simp add: ship_organizations_def ship_words_def)
qed

section \<open>Arguments and entities\<close>

text \<open>
  Claim C10. In the matcher-centric variant the organisations merged into the vessels
  are exactly those whose lowered text contains \<open>ship\<close>, \<open>vessel\<close>, \<open>tanker\<close> or
  \<open>ferry\<close>; \<open>MV\<close>, \<open>MT\<close> and \<open>MS\<close> are never contained in a lowered text. So an
  organisation entity whose text is not already among the vessels found by the matcher or
  by the dependency walk is in the resulting vessels list if and only if its lowered text
  contains one of the four words.
\<close>

theorem organizations_merged_into_vessels:
  "ship_organizations organizations =
     filter (\<lambda>org. \<exists>w \<in> set [''ship'', ''vessel'', ''tanker'', ''ferry'']. py_in w (py_lower org))
       organizations \<and>
   \<not> py_in ''MV'' (py_lower org) \<and> \<not> py_in ''MT'' (py_lower org) \<and>
   \<not> py_in ''MS'' (py_lower org) \<and>
   (map_sum id (map_option (spacy_argument ''vessels'')) (extract_Spacy (Some analyze) matcher text)
       = Inr (Some (Inr vessels)) \<and>
    e \<in> set (ents (analyze text)) \<and> ent_label e = ''ORG'' \<and>
    extract_with_matcher matcher (analyze text) = Inr matcher_results \<and>
    dict_get matcher_results ''vessels'' = Inr m_vessels \<and> ent_text e \<notin> set m_vessels \<and>
    extract_with_dependency (analyze text) = Inr dep_results \<and>
    dict_get dep_results ''vessels'' = Inr d_vessels \<and> ent_text e \<notin> set d_vessels
    \<longrightarrow>
      (ent_text e \<in> set vessels \<longleftrightarrow>
         (\<exists>w \<in> set [''ship'', ''vessel'', ''tanker'', ''ferry'']. py_in w (py_lower (ent_text e)))))"
proof (intro conjI impI)
  show "ship_organizations organizations =
     filter (\<lambda>org. \<exists>w \<in> set [''ship'', ''vessel'', ''tanker'', ''ferry'']. py_in w (py_lower org))
       organizations"
    by (rule ship_organizations_four)
next
  have M: "lower_char (CHR ''M'') \<noteq> CHR ''M''"
    by (simp add: lower_char_def char_of_eq_iff)
  show "\<not> py_in ''MV'' (py_lower org)" "\<not> py_in ''MT'' (py_lower org)"
    "\<not> py_in ''MS'' (py_lower org)"
    using capital_not_in_lowered [OF _ M] by simp_all
next
  assume H: "map_sum id (map_option (spacy_argument ''vessels'')) (extract_Spacy (Some analyze) matcher text)
       = Inr (Some (Inr vessels)) \<and>
    e \<in> set (ents (analyze text)) \<and> ent_label e = ''ORG'' \<and>
    extract_with_matcher matcher (analyze text) = Inr matcher_results \<and>
    dict_get matcher_results ''vessels'' = Inr m_vessels \<and> ent_text e \<notin> set m_vessels \<and>
    extract_with_dependency (analyze text) = Inr dep_results \<and>
    dict_get dep_results ''vessels'' = Inr d_vessels \<and> ent_text e \<notin> set d_vessels"
  define d where "d = analyze text"
  note h1 = H [THEN conjunct1]
  note h2 = H [THEN conjunct2, THEN conjunct1]
  note h3 = H [THEN conjunct2, THEN conjunct2, THEN conjunct1]
  note h4 = H [THEN conjunct2, THEN conjunct2, THEN conjunct2, THEN conjunct1]
  note h5 = H [THEN conjunct2, THEN conjunct2, THEN conjunct2, THEN conjunct2, THEN conjunct1]
  note h6 = H [THEN conjunct2, THEN conjunct2, THEN conjunct2, THEN conjunct2, THEN conjunct2,
      THEN conjunct1]
  note h7 = H [THEN conjunct2, THEN conjunct2, THEN conjunct2, THEN conjunct2, THEN conjunct2,
      THEN conjunct2, THEN conjunct1]
  note h8 = H [THEN conjunct2, THEN conjunct2, THEN conjunct2, THEN conjunct2, THEN conjunct2,
      THEN conjunct2, THEN conjunct2, THEN conjunct1]
  note h9 = H [THEN conjunct2, THEN conjunct2, THEN conjunct2, THEN conjunct2, THEN conjunct2,
      THEN conjunct2, THEN conjunct2, THEN conjunct2]
  from h4 have "matcher_results =
      [(''triggers'', matched ''TRIGGER'' (matcher d)),
        (''vessels'', matched ''VESSEL'' (matcher d)),
        (''locations'', matched ''LOCATION'' (matcher d)),
        (''causes'', matched ''CAUSE'' (matcher d)),
        (''damages'', matched ''DAMAGE'' (matcher d)),
        (''responses'', matched ''RESPONSE'' (matcher d))]"
    unfolding extract_with_matcher_closed d_def by simp
  with h5 have mv: "m_vessels = matched ''VESSEL'' (matcher d)"
    by simp
  from h7 h8 have dv: "d_vessels = dependency_values d ''vessels''"
    by (simp add: dependency_values_def d_def)
  have "map_sum id (map_option (spacy_argument ''vessels''))
          (extract_Spacy (Some analyze) matcher text) =
        Inr (Some (Inr (list_set (matched ''VESSEL'' (matcher d) @ dependency_values d ''vessels'' @
         ship_organizations (entity_texts (\<lambda>e. ent_label e = ''ORG'') d)))))"
    unfolding extract_Spacy_loaded d_def
    by (simp add: spacy_argument_def spacy_arguments_def)
  with h1 have "vessels = list_set (matched ''VESSEL'' (matcher d) @ dependency_values d ''vessels'' @
         ship_organizations (entity_texts (\<lambda>e. ent_label e = ''ORG'') d))"
    by simp
  then have "set vessels = set m_vessels \<union> set d_vessels \<union>
      set (ship_organizations (entity_texts (\<lambda>e. ent_label e = ''ORG'') d))"
    by (simp add: list_set_def mv dv Un_assoc)
  with h6 h9 have i1: "ent_text e \<in> set vessels \<longleftrightarrow>
      ent_text e \<in> set (ship_organizations (entity_texts (\<lambda>e. ent_label e = ''ORG'') d))"
    by simp
  have i2: "ent_text e \<in> set (ship_organizations (entity_texts (\<lambda>e. ent_label e = ''ORG'') d)) \<longleftrightarrow>
      ent_text e \<in> set (entity_texts (\<lambda>e. ent_label e = ''ORG'') d) \<and>
      (\<exists>w \<in> set [''ship'', ''vessel'', ''tanker'', ''ferry'']. py_in w (py_lower (ent_text e)))"
    unfolding ship_organizations_four by (simp del: set_simps py_in.simps)
  have i3: "ent_text e \<in> set (entity_texts (\<lambda>e. ent_label e = ''ORG'') d)"
    using h2 h3 by (simp add: entity_texts_def d_def)
  show "ent_text e \<in> set vessels \<longleftrightarrow>
         (\<exists>w \<in> set [''ship'', ''vessel'', ''tanker'', ''ferry'']. py_in w (py_lower (ent_text e)))"
    by (simp only: i1 i2 i3 simp_thms)
qed

text \<open>
  A document whose only entity is the organisation \<open>Maersk Tankers\<close>: its lowered text
  contains \<open>tanker\<close>, and it is the one vessel of the result.
\<close>

theorem organizations_merged_into_vessels_witness:
  "map_sum id (map_option (spacy_argument ''vessels''))
     (extract_Spacy (Some (entities_nlp [\<lparr>ent_text = ''Maersk Tankers'', ent_label = ''ORG''\<rparr>]))
        no_matches ''Maersk Tankers'') = Inr (Some (Inr [''Maersk Tankers''])) \<and>
   (\<exists>w \<in> set [''ship'', ''vessel'', ''tanker'', ''ferry'']. py_in w (py_lower ''Maersk Tankers'')) \<and>
   \<not> py_in ''MS'' (py_lower ''MS Maersk'')"
proof -
  let ?e = "\<lparr>ent_text = ''Maersk Tankers'', ent_label = ''ORG''\<rparr>"
  let ?nlp = "entities_nlp [?e]"
  let ?D = "[(''vessels'', []), (''locations'', []), (''causes'', []),
             (''times'', []), (''damages'', []), (''responses'', [])] :: string list dict"
  let ?M = "[(''triggers'', []), (''vessels'', []), (''locations'', []),
             (''causes'', []), (''damages'', []), (''responses'', [])] :: string list dict"
  have r: "map_sum id (map_option (spacy_argument ''vessels''))
     (extract_Spacy (Some ?nlp) no_matches ''Maersk Tankers'') = Inr (Some (Inr [''Maersk Tankers'']))"
    by code_simp
  have e: "?e \<in> set (ents (?nlp ''Maersk Tankers''))" "ent_label ?e = ''ORG''"
    by (simp_all add: entities_nlp_def)
  have m: "extract_with_matcher no_matches (?nlp ''Maersk Tankers'') = Inr ?M"
    "dict_get ?M ''vessels'' = Inr []"
    by (simp_all add: extract_with_matcher_def no_matches_def)
  have dp: "extract_with_dependency (?nlp ''Maersk Tankers'') = Inr ?D"
    "dict_get ?D ''vessels'' = Inr []"
    by (simp_all add: extract_with_dependency_def entities_nlp_def)
  note T = organizations_merged_into_vessels [of "[]" "''MS Maersk''" ?nlp no_matches
      "''Maersk Tankers''" "[''Maersk Tankers'']" ?e ?M "[]" ?D "[]"]
  note ms = T [THEN conjunct2, THEN conjunct2, THEN conjunct2, THEN conjunct1]
  have n: "ent_text ?e \<notin> set []"
    by simp
  note hyp = conjI [OF r conjI [OF e(1) conjI [OF e(2) conjI [OF m(1) conjI [OF m(2)
      conjI [OF n conjI [OF dp(1) conjI [OF dp(2) n]]]]]]]]
  note iff = T [THEN conjunct2, THEN conjunct2, THEN conjunct2, THEN conjunct2, THEN mp, OF hyp]
  have "ent_text ?e \<in> set [''Maersk Tankers'']"
    by simp
  from iffD1 [OF iff this]
  have "\<exists>w \<in> set [''ship'', ''vessel'', ''tanker'', ''ferry'']. py_in w (py_lower ''Maersk Tankers'')"
    by (simp only: entity.simps)
  with r ms show ?thesis
    by (intro conjI)
qed

text \<open>
  Claim C6, as stated, fails in both variants. The keyword-centric variant has no
  person category: a person entity is assigned to no category at all. The matcher-centric
  \<open>extract_with_ner\<close> files every organisation under \<open>organizations\<close>, also
  \<open>Philippine Coast Guard\<close>, and has no response category.
\<close>

theorem entity_classification_differs:
  "ner_arguments (entities_nlp [\<lparr>ent_text = ''John Smith'', ent_label = ''PERSON''\<rparr>] ''John Smith'')
     no_arguments = Inr no_arguments \<and>
   extract_with_ner
     (entities_nlp [\<lparr>ent_text = ''Philippine Coast Guard'', ent_label = ''ORG''\<rparr>]
        ''Philippine Coast Guard'') =
     Inr [(''organizations'', [''Philippine Coast Guard'']), (''locations'', []),
          (''times'', []), (''persons'', [])]"
  by (simp add: ner_arguments_def ner_argument_def entities_nlp_def no_arguments_def
      extract_with_ner_def append_to_def)

text \<open>
  Claim C6, amended. In the keyword-centric variant the entities are classified in this
  order: location and facility entities (\<open>GPE\<close>, \<open>LOC\<close>, \<open>FAC\<close>) go to
  \<open>location\<close>; date and time entities to \<open>time\<close>; organisation entities to
  \<open>response\<close> when their lowered text contains \<open>guard\<close>, \<open>rescue\<close> or
  \<open>maritime\<close>, and to \<open>vessel\<close> otherwise; every other entity, a person included, is
  assigned to no category. In the matcher-centric variant \<open>extract_with_ner\<close> sorts the
  entities by label alone: organisations to \<open>organizations\<close>, location and facility
  entities to \<open>locations\<close>, date and time entities to \<open>times\<close>, persons to
  \<open>persons\<close>. The organisation \<open>Philippine Coast Guard\<close> is a response and not a
  vessel in the keyword-centric variant, and is not among the organisations that the
  matcher-centric variant merges into the vessels.
\<close>

theorem entity_classification:
  "ner_arguments d no_arguments =
     Inr [(''vessel'',
            entity_texts (\<lambda>e. ent_label e = ''ORG'' \<and> \<not> mentions_responder (ent_text e)) d),
          (''location'', entity_texts (\<lambda>e. ent_label e \<in> {''GPE'', ''LOC'', ''FAC''}) d),
          (''cause'', []),
          (''time'', entity_texts (\<lambda>e. ent_label e \<in> {''DATE'', ''TIME''}) d),
          (''damage'', []),
          (''response'',
            entity_texts (\<lambda>e. ent_label e = ''ORG'' \<and> mentions_responder (ent_text e)) d)] \<and>
   extract_with_ner d =
     Inr [(''organizations'', entity_texts (\<lambda>e. ent_label e = ''ORG'') d),
          (''locations'', entity_texts (\<lambda>e. ent_label e \<in> {''GPE'', ''LOC'', ''FAC''}) d),
          (''times'', entity_texts (\<lambda>e. ent_label e \<in> {''DATE'', ''TIME''}) d),
          (''persons'', entity_texts (\<lambda>e. ent_label e = ''PERSON'') d)] \<and>
   mentions_responder ''Philippine Coast Guard'' \<and>
   ship_organizations [''Philippine Coast Guard''] = []"
proof (intro conjI)
  show "ner_arguments d no_arguments =
     Inr [(''vessel'',
            entity_texts (\<lambda>e. ent_label e = ''ORG'' \<and> \<not> mentions_responder (ent_text e)) d),
          (''location'', entity_texts (\<lambda>e. ent_label e \<in> {''GPE'', ''LOC'', ''FAC''}) d),
          (''cause'', []),
          (''time'', entity_texts (\<lambda>e. ent_label e \<in> {''DATE'', ''TIME''}) d),
          (''damage'', []),
          (''response'',
            entity_texts (\<lambda>e. ent_label e = ''ORG'' \<and> mentions_responder (ent_text e)) d)]"
    unfolding ner_arguments_def no_arguments_def ner_arguments_closed entity_texts_def
    by simp
next
  show "extract_with_ner d =
     Inr [(''organizations'', entity_texts (\<lambda>e. ent_label e = ''ORG'') d),
          (''locations'', entity_texts (\<lambda>e. ent_label e \<in> {''GPE'', ''LOC'', ''FAC''}) d),
          (''times'', entity_texts (\<lambda>e. ent_label e \<in> {''DATE'', ''TIME''}) d),
          (''persons'', entity_texts (\<lambda>e. ent_label e = ''PERSON'') d)]"
    by (rule extract_with_ner_closed)
next
  show "mentions_responder ''Philippine Coast Guard''"
    by code_simp
next
  show "ship_organizations [''Philippine Coast Guard''] = []"
    by code_simp
qed

text \<open>
  A document with a location, an organisation of each kind and a person.
\<close>

theorem entity_classification_witness:
  "ner_arguments
     (entities_nlp [\<lparr>ent_text = ''Manila'', ent_label = ''GPE''\<rparr>,
                    \<lparr>ent_text = ''Philippine Coast Guard'', ent_label = ''ORG''\<rparr>,
                    \<lparr>ent_text = ''Maersk'', ent_label = ''ORG''\<rparr>,
                    \<lparr>ent_text = ''John Smith'', ent_label = ''PERSON''\<rparr>] ''x'')
     no_arguments =
     Inr [(''vessel'', [''Maersk'']), (''location'', [''Manila'']), (''cause'', []),
          (''time'', []), (''damage'', []), (''response'', [''Philippine Coast Guard''])]"
proof -
  let ?d = "entities_nlp [\<lparr>ent_text = ''Manila'', ent_label = ''GPE''\<rparr>,
                    \<lparr>ent_text = ''Philippine Coast Guard'', ent_label = ''ORG''\<rparr>,
                    \<lparr>ent_text = ''Maersk'', ent_label = ''ORG''\<rparr>,
                    \<lparr>ent_text = ''John Smith'', ent_label = ''PERSON''\<rparr>] ''x''"
  have v: "entity_texts (\<lambda>e. ent_label e = ''ORG'' \<and> \<not> mentions_responder (ent_text e)) ?d = [''Maersk'']"
    by code_simp
  have l: "entity_texts (\<lambda>e. ent_label e \<in> {''GPE'', ''LOC'', ''FAC''}) ?d = [''Manila'']"
    by code_simp
  have t: "entity_texts (\<lambda>e. ent_label e \<in> {''DATE'', ''TIME''}) ?d = []"
    by code_simp
  have r: "entity_texts (\<lambda>e. ent_label e = ''ORG'' \<and> mentions_responder (ent_text e)) ?d =
      [''Philippine Coast Guard'']"
    by code_simp
  from entity_classification [of ?d, THEN conjunct1] show ?thesis
    by (simp only: v l t r)
qed

text \<open>
  Claim C4 fails on the code for the \<open>persons\<close> category of the matcher-centric
  variant: two person entities with the same text give a list with a duplicate, because
  \<open>ner_results["persons"]\<close> is passed on as it is while the six sibling categories go
  through \<open>list(set(...))\<close>.
\<close>

theorem persons_not_deduplicated:
  "map_sum id (map_option (spacy_argument ''persons''))
     (extract_Spacy
        (Some (entities_nlp [\<lparr>ent_text = ''Smith'', ent_label = ''PERSON''\<rparr>,
                             \<lparr>ent_text = ''Smith'', ent_label = ''PERSON''\<rparr>]))
        no_matches ''Smith thanked Smith'') =
     Inr (Some (Inr [''Smith'', ''Smith''])) \<and>
   \<not> distinct [''Smith'', ''Smith'']"
  by (simp add: extract_Spacy_loaded spacy_argument_def spacy_arguments_def entity_texts_def
      entities_nlp_def)

text \<open>
  What does hold of the arguments: with the model loaded, the keyword-centric mapping has
  every declared category as a key, mapped to a duplicate-free list whose elements are
  those found by the keyword step, the entity step and the dependency step; and the six
  merged categories of the matcher-centric mapping are duplicate-free.
\<close>

lemma extract_arguments_union:
  "\<exists>arguments. extract_arguments (Some analyze) text = Inr arguments \<and>
     map fst arguments = map fst argument_patterns \<and>
     (\<forall>arg_type \<in> set (map fst argument_patterns).
        \<exists>values. dict_get arguments arg_type = Inr values \<and> distinct values \<and>
          set values = set (keyword_strings text arg_type) \<union>
                       set (entity_strings (analyze text) arg_type) \<union>
                       set (dependency_strings (analyze text) arg_type))"
proof -
  have keys: "map fst argument_patterns =
      [''vessel'', ''location'', ''cause'', ''time'', ''damage'', ''response'']"
    by (simp add: argument_patterns_def)
  have fin: "map (\<lambda>(arg_type, _). (arg_type, F arg_type)) argument_patterns =
      [(''vessel'', F ''vessel''), (''location'', F ''location''), (''cause'', F ''cause''),
       (''time'', F ''time''), (''damage'', F ''damage''), (''response'', F ''response'')]"
    for F :: "string \<Rightarrow> string list"
    by (simp add: argument_patterns_def)
  show ?thesis
    unfolding extract_arguments_loaded fin keys
    by (simp add: list_set_def Un_assoc)
qed

lemma spacy_arguments_distinct:
  "key \<in> {''vessels'', ''locations'', ''times'', ''causes'', ''damages'', ''responses''} \<Longrightarrow>
     \<exists>values. dict_get (spacy_arguments matcher d) key = Inr values \<and> distinct values"
  by (auto simp: spacy_arguments_def list_set_def)

end
